theory Spec2Isabelle
  imports Complex_Main
begin

section \<open>JavaScript strings and values\<close>

text \<open>
  Strings are lists of characters. The helpers below are the string built-ins the
  sources call: \<^verbatim>\<open>trim\<close>, \<^verbatim>\<open>startsWith\<close>, \<^verbatim>\<open>includes\<close>, \<^verbatim>\<open>toLowerCase\<close>,
  \<^verbatim>\<open>lastIndexOf\<close> and \<^verbatim>\<open>slice\<close>. Characters are the code units below 256, so the
  white space of JavaScript is TAB, LF, VT, FF, CR, SP and NBSP, and the case mappings
  are those of the ASCII and Latin-1 letters that stay below 256.
\<close>

definition backslash :: char where
  "backslash = CHR 0x5C"

definition isWhiteSpace :: "char \<Rightarrow> bool" where
  "isWhiteSpace c = (c \<in> {CHR 0x09, CHR 0x0A, CHR 0x0B, CHR 0x0C, CHR 0x0D, CHR 0x20, CHR 0xA0})"

definition trim :: "string \<Rightarrow> string" where
  "trim s = rev (dropWhile isWhiteSpace (rev (dropWhile isWhiteSpace s)))"

fun startsWith :: "string \<Rightarrow> string \<Rightarrow> bool" where
  "startsWith s [] = True"
| "startsWith [] (p # ps) = False"
| "startsWith (c # cs) (p # ps) = (c = p \<and> startsWith cs ps)"

fun includesStr :: "string \<Rightarrow> string \<Rightarrow> bool" where
  "includesStr [] sub = (sub = [])"
| "includesStr (c # cs) sub = (startsWith (c # cs) sub \<or> includesStr cs sub)"

definition endsWith :: "string \<Rightarrow> string \<Rightarrow> bool" where
  "endsWith s suffix = startsWith (rev s) (rev suffix)"

definition lowerChar :: "char \<Rightarrow> char" where
  "lowerChar c =
     (let n = (of_char c :: nat)
      in if (65 \<le> n \<and> n \<le> 90) \<or> (192 \<le> n \<and> n \<le> 222 \<and> n \<noteq> 215) then char_of (n + 32) else c)"

definition upperChar :: "char \<Rightarrow> char" where
  "upperChar c =
     (let n = (of_char c :: nat)
      in if (97 \<le> n \<and> n \<le> 122) \<or> (224 \<le> n \<and> n \<le> 254 \<and> n \<noteq> 247) then char_of (n - 32) else c)"

definition toLowerCase :: "string \<Rightarrow> string" where
  "toLowerCase s = map lowerChar s"

text \<open>\<^verbatim>\<open>s.lastIndexOf(c)\<close> for a one-character needle; \<open>None\<close> is the \<open>-1\<close> of JavaScript.\<close>

fun lastIndexOf :: "string \<Rightarrow> char \<Rightarrow> nat option" where
  "lastIndexOf [] c = None"
| "lastIndexOf (x # xs) c =
     (case lastIndexOf xs c of
        Some i \<Rightarrow> Some (Suc i)
      | None \<Rightarrow> (if x = c then Some 0 else None))"

text \<open>\<^verbatim>\<open>s.slice(a, b)\<close> and \<^verbatim>\<open>s.slice(a)\<close> with indices that may be negative (counted from
  the end) and are clamped to the string.\<close>

definition sliceIndex :: "nat \<Rightarrow> int \<Rightarrow> nat" where
  "sliceIndex len i = (if i < 0 then nat (max 0 (int len + i)) else min (nat i) len)"

definition slice :: "string \<Rightarrow> int \<Rightarrow> int \<Rightarrow> string" where
  "slice s a b = (let i = sliceIndex (length s) a; j = sliceIndex (length s) b
                  in take (j - i) (drop i s))"

definition sliceFrom :: "string \<Rightarrow> int \<Rightarrow> string" where
  "sliceFrom s a = drop (sliceIndex (length s) a) s"

text \<open>\<^verbatim>\<open>s.substring(a, b)\<close> for \<open>a \<le> b\<close>.\<close>

definition substring :: "string \<Rightarrow> nat \<Rightarrow> nat \<Rightarrow> string" where
  "substring s a b = take (b - a) (drop a s)"

text \<open>
  The values that cross the service boundary are untyped at run time: \<^verbatim>\<open>JSON.parse\<close>
  returns whatever the text holds and the TypeScript casts are erased. An object is the
  map of its own properties; reading an absent property gives \<open>Undefined\<close>.
\<close>

datatype jsval =
    Undefined
  | Null
  | Bool bool
  | Num real
  | Str string
  | Arr "jsval list"
  | Obj "string \<Rightarrow> jsval option"

type_synonym jobject = "string \<rightharpoonup> jsval"

definition getProp :: "jobject \<Rightarrow> string \<Rightarrow> jsval" where
  "getProp obj k = (case obj k of None \<Rightarrow> Undefined | Some v \<Rightarrow> v)"

definition hasProp :: "jobject \<Rightarrow> string \<Rightarrow> bool" where
  "hasProp obj k = (obj k \<noteq> None)"

text \<open>Decimal digits of an index, for the property names of arrays and strings.\<close>

fun natToString :: "nat \<Rightarrow> string" where
  "natToString n =
     (if n < 10 then [char_of (48 + n)] else natToString (n div 10) @ [char_of (48 + n mod 10)])"

text \<open>
  The own enumerable properties that \<^verbatim>\<open>{...v}\<close> copies: those of an object, the
  indexed elements of an array, the indexed characters of a string, and none otherwise.
\<close>

definition ownProps :: "jsval \<Rightarrow> jobject" where
  "ownProps v =
     (case v of
        Obj ps \<Rightarrow> ps
      | Arr xs \<Rightarrow> map_of (zip (map natToString [0..<length xs]) xs)
      | Str cs \<Rightarrow> map_of (zip (map natToString [0..<length cs]) (map (\<lambda>c. Str [c]) cs))
      | _ \<Rightarrow> Map.empty)"

text \<open>Truthiness, and the \<^verbatim>\<open>a || b\<close> built on it.\<close>

fun truthy :: "jsval \<Rightarrow> bool" where
  "truthy Undefined = False"
| "truthy Null = False"
| "truthy (Bool b) = b"
| "truthy (Num n) = (n \<noteq> 0)"
| "truthy (Str s) = (s \<noteq> [])"
| "truthy (Arr xs) = True"
| "truthy (Obj ps) = True"

definition orElse :: "jsval \<Rightarrow> jsval \<Rightarrow> jsval" where
  "orElse a b = (if truthy a then a else b)"


section \<open>Regular expressions\<close>

text \<open>
  The regular expression literals of the sources are values of \<open>regex\<close>: a literal
  character, a class \<^verbatim>\<open>[...]\<close> or \<^verbatim>\<open>[^...]\<close> of characters, ranges and the escapes
  \<^verbatim>\<open>\d \w \s \S\<close>, the dot, sequence, alternation, the greedy and lazy star, a
  capturing group with its number, \<^verbatim>\<open>\b\<close>, \<^verbatim>\<open>^\<close> and \<^verbatim>\<open>$\<close>. \<^verbatim>\<open>r+\<close> is
  \<^verbatim>\<open>rr*\<close> and \<^verbatim>\<open>r?\<close> is \<^verbatim>\<open>r|\<close>(empty); a non-capturing group is its body.
\<close>

datatype citem = CChar char | CRange char char | CDigit | CWord | CSpace | CNonSpace

datatype regex =
    Eps
  | Chr char
  | Cls "citem list"
  | NCls "citem list"
  | Dot
  | Seq regex regex
  | Alt regex regex
  | Star bool regex
  | Group nat regex
  | WordB
  | Bol
  | Eol

definition Plus :: "bool \<Rightarrow> regex \<Rightarrow> regex" where
  "Plus greedy r = Seq r (Star greedy r)"

definition Opt :: "regex \<Rightarrow> regex" where
  "Opt r = Alt r Eps"

fun Lit :: "string \<Rightarrow> regex" where
  "Lit [] = Eps"
| "Lit [a] = Chr a"
| "Lit (a # as) = Seq (Chr a) (Lit as)"

text \<open>A sequence and an alternation of several expressions, in their order.\<close>

fun Seqs :: "regex list \<Rightarrow> regex" where
  "Seqs [] = Eps"
| "Seqs [r] = r"
| "Seqs (r # rs) = Seq r (Seqs rs)"

fun Alts :: "regex list \<Rightarrow> regex" where
  "Alts [] = Eps"
| "Alts [r] = r"
| "Alts (r # rs) = Alt r (Alts rs)"

text \<open>
  Character tests. With the \<^verbatim>\<open>i\<close> flag two characters are equal when their upper
  case is, and a class has a character when it has the character or one of its case
  variants.
\<close>

definition isDigit :: "char \<Rightarrow> bool" where
  "isDigit c = (let n = (of_char c :: nat) in 48 \<le> n \<and> n \<le> 57)"

definition isWordChar :: "char \<Rightarrow> bool" where
  "isWordChar c = (let n = (of_char c :: nat)
                   in (97 \<le> n \<and> n \<le> 122) \<or> (65 \<le> n \<and> n \<le> 90) \<or> (48 \<le> n \<and> n \<le> 57) \<or> n = 95)"

definition isLineTerminator :: "char \<Rightarrow> bool" where
  "isLineTerminator c = (c = CHR 0x0A \<or> c = CHR 0x0D)"

fun itemHas :: "citem \<Rightarrow> char \<Rightarrow> bool" where
  "itemHas (CChar a) c = (c = a)"
| "itemHas (CRange lo hi) c = ((of_char lo :: nat) \<le> of_char c \<and> (of_char c :: nat) \<le> of_char hi)"
| "itemHas CDigit c = isDigit c"
| "itemHas CWord c = isWordChar c"
| "itemHas CSpace c = isWhiteSpace c"
| "itemHas CNonSpace c = (\<not> isWhiteSpace c)"

definition charEq :: "bool \<Rightarrow> char \<Rightarrow> char \<Rightarrow> bool" where
  "charEq ignoreCase c a = (if ignoreCase then upperChar c = upperChar a else c = a)"

definition classHas :: "bool \<Rightarrow> citem list \<Rightarrow> char \<Rightarrow> bool" where
  "classHas ignoreCase items c =
     list_ex (\<lambda>it. itemHas it c \<or> (ignoreCase \<and> (itemHas it (upperChar c) \<or> itemHas it (lowerChar c)))) items"

text \<open>
  A matcher state is the input consumed so far (reversed), the input still ahead, and the
  captures: group number to start and end index.
\<close>

type_synonym caps = "nat \<rightharpoonup> nat \<times> nat"
type_synonym mstate = "string \<times> string \<times> caps"

fun groupsOf :: "regex \<Rightarrow> nat list" where
  "groupsOf (Seq r1 r2) = groupsOf r1 @ groupsOf r2"
| "groupsOf (Alt r1 r2) = groupsOf r1 @ groupsOf r2"
| "groupsOf (Star g r) = groupsOf r"
| "groupsOf (Group n r) = n # groupsOf r"
| "groupsOf r = []"

definition resetCaps :: "regex \<Rightarrow> caps \<Rightarrow> caps" where
  "resetCaps r c = (\<lambda>n. if n \<in> set (groupsOf r) then None else c n)"

definition atWordBoundary :: "string \<Rightarrow> string \<Rightarrow> bool" where
  "atWordBoundary pre rest =
     ((case pre of [] \<Rightarrow> False | x # xs \<Rightarrow> isWordChar x)
      \<noteq> (case rest of [] \<Rightarrow> False | y # ys \<Rightarrow> isWordChar y))"

text \<open>
  The backtracking matcher of ECMAScript as a list of successes: all the states in which
  the expression can end when started in the given state, in the order in which
  backtracking tries them. The first element is the match the engine reports. An
  iteration of a star that consumes nothing is dropped, and the captures inside a star
  are reset when an iteration starts.
\<close>

function rmatch :: "bool \<Rightarrow> regex \<Rightarrow> mstate \<Rightarrow> mstate list" where
  "rmatch ic Eps st = [st]"
| "rmatch ic (Chr a) (pre, rest, c) =
     (case rest of [] \<Rightarrow> [] | x # xs \<Rightarrow> if charEq ic x a then [(x # pre, xs, c)] else [])"
| "rmatch ic (Cls items) (pre, rest, c) =
     (case rest of [] \<Rightarrow> [] | x # xs \<Rightarrow> if classHas ic items x then [(x # pre, xs, c)] else [])"
| "rmatch ic (NCls items) (pre, rest, c) =
     (case rest of [] \<Rightarrow> [] | x # xs \<Rightarrow> if \<not> classHas ic items x then [(x # pre, xs, c)] else [])"
| "rmatch ic Dot (pre, rest, c) =
     (case rest of [] \<Rightarrow> [] | x # xs \<Rightarrow> if \<not> isLineTerminator x then [(x # pre, xs, c)] else [])"
| "rmatch ic (Seq r1 r2) st = concat (map (rmatch ic r2) (rmatch ic r1 st))"
| "rmatch ic (Alt r1 r2) st = rmatch ic r1 st @ rmatch ic r2 st"
| "rmatch ic (Star greedy r) (pre, rest, c) =
     (let more = concat (map (\<lambda>st'. if length (fst (snd st')) < length rest
                                      then rmatch ic (Star greedy r) st' else [])
                          (rmatch ic r (pre, rest, resetCaps r c)))
      in if greedy then more @ [(pre, rest, c)] else (pre, rest, c) # more)"
| "rmatch ic (Group n r) (pre, rest, c) =
     map (\<lambda>st'. (fst st', fst (snd st'), (snd (snd st'))(n \<mapsto> (length pre, length (fst st')))))
       (rmatch ic r (pre, rest, c))"
| "rmatch ic WordB (pre, rest, c) = (if atWordBoundary pre rest then [(pre, rest, c)] else [])"
| "rmatch ic Bol (pre, rest, c) = (if pre = [] then [(pre, rest, c)] else [])"
| "rmatch ic Eol (pre, rest, c) = (if rest = [] then [(pre, rest, c)] else [])"
  by pat_completeness auto
termination
  by (relation "inv_image (measure size <*lex*> measure length) (\<lambda>(ic, r, pre, rest, c). (r, rest))") auto


text \<open>Matching only moves forward in the input.\<close>

lemma rmatch_extends:
  "st' \<in> set (rmatch ic r st) \<Longrightarrow>
     rev (fst st') @ fst (snd st') = rev (fst st) @ fst (snd st) \<and> length (fst st) \<le> length (fst st')"
proof (induction ic r st arbitrary: st' rule: rmatch.induct)
  case (6 ic r1 r2 st)
  from "6.prems" obtain m where m: "m \<in> set (rmatch ic r1 st)" "st' \<in> set (rmatch ic r2 m)"
    by auto
  from "6.IH"(1) [OF m(1)] "6.IH"(2) [OF m(1) m(2)] show ?case by simp
next
  case (8 ic greedy r pre rest c)
  show ?case
  proof (cases "st' = (pre, rest, c)")
    case True
    then show ?thesis by simp
  next
    case False
    with "8.prems" obtain m where m: "m \<in> set (rmatch ic r (pre, rest, resetCaps r c))"
      "length (fst (snd m)) < length rest" "st' \<in> set (rmatch ic (Star greedy r) m)"
      by (auto simp: Let_def split: if_splits)
    from "8.IH"(1) [OF m(1)] "8.IH"(2) [OF m(1) m(2) m(3)] show ?thesis by simp
  qed
qed (auto split: list.splits if_splits)

text \<open>
  A match attempt at index \<open>i\<close>, \<^verbatim>\<open>exec\<close> without the sticky flag (the leftmost index
  from \<open>i\<close> on at which an attempt succeeds), and \<^verbatim>\<open>String.prototype.match\<close> and
  \<^verbatim>\<open>RegExp.prototype.test\<close> for an expression without the \<^verbatim>\<open>g\<close> flag.
\<close>

definition mstart :: "string \<Rightarrow> nat \<Rightarrow> mstate" where
  "mstart s i = (rev (take i s), drop i s, Map.empty)"

record reMatch =
  mIndex :: nat
  mEnd :: nat
  mCaps :: caps

definition matchAt :: "bool \<Rightarrow> regex \<Rightarrow> string \<Rightarrow> nat \<Rightarrow> reMatch option" where
  "matchAt ic r s i =
     (case rmatch ic r (mstart s i) of
        [] \<Rightarrow> None
      | st # sts \<Rightarrow> Some \<lparr>mIndex = i, mEnd = length (fst st), mCaps = snd (snd st)\<rparr>)"

function execFrom :: "bool \<Rightarrow> regex \<Rightarrow> string \<Rightarrow> nat \<Rightarrow> reMatch option" where
  "execFrom ic r s i =
     (if length s < i then None
      else case matchAt ic r s i of
             Some m \<Rightarrow> Some m
           | None \<Rightarrow> execFrom ic r s (Suc i))"
  by pat_completeness auto
termination
  by (relation "measure (\<lambda>(ic, r, s, i). Suc (length s) - i)") auto

definition matchText :: "string \<Rightarrow> reMatch \<Rightarrow> string" where
  "matchText s m = substring s (mIndex m) (mEnd m)"

definition captureText :: "string \<Rightarrow> reMatch \<Rightarrow> nat \<Rightarrow> string option" where
  "captureText s m n = (case mCaps m n of None \<Rightarrow> None | Some (a, b) \<Rightarrow> Some (substring s a b))"

definition reMatchStr :: "bool \<Rightarrow> regex \<Rightarrow> string \<Rightarrow> reMatch option" where
  "reMatchStr ic r s = execFrom ic r s 0"

definition reTest :: "bool \<Rightarrow> regex \<Rightarrow> string \<Rightarrow> bool" where
  "reTest ic r s = (execFrom ic r s 0 \<noteq> None)"

text \<open>A match attempt ends at or after the index where it started.\<close>

lemma matchAt_end: "matchAt ic r s i = Some m \<Longrightarrow> i \<le> length s \<Longrightarrow> i \<le> mEnd m"
proof -
  assume a: "matchAt ic r s i = Some m" and i: "i \<le> length s"
  then obtain st sts where st: "rmatch ic r (mstart s i) = st # sts" "mEnd m = length (fst st)"
    by (auto simp: matchAt_def split: list.splits)
  then have "st \<in> set (rmatch ic r (mstart s i))" by simp
  from rmatch_extends [OF this] have "length (fst (mstart s i)) \<le> length (fst st)" by simp
  with st i show ?thesis by (simp add: mstart_def)
qed

text \<open>
  \<^verbatim>\<open>String.prototype.split\<close> with a regular expression: the text between matches,
  each followed by the captures of the match that ends it (\<open>None\<close> is an undefined
  capture); \<open>p\<close> is the end of the last match used and \<open>q\<close> the index tried next. A
  match that ends at \<open>p\<close> is skipped.
\<close>

function splitLoop :: "bool \<Rightarrow> regex \<Rightarrow> string \<Rightarrow> nat \<Rightarrow> nat \<Rightarrow> string option list" where
  "splitLoop ic r s p q =
     (if q < length s then
        (case matchAt ic r s q of
           None \<Rightarrow> splitLoop ic r s p (Suc q)
         | Some m \<Rightarrow>
             let e = min (mEnd m) (length s)
             in if e = p then splitLoop ic r s p (Suc q)
                else Some (substring s p q) # map (captureText s m) (groupsOf r)
                       @ splitLoop ic r s e e)
      else [Some (substring s p (length s))])"
  by pat_completeness auto
termination
proof (relation "measure (\<lambda>(ic, r, s, p, q). 2 * (length s - q) + (if p \<noteq> q then 1 else 0))", goal_cases)
  case 1
  then show ?case by simp
next
  case (2 ic r s p q)
  then show ?case by auto
next
  case (3 ic r s p q m e)
  then show ?case by auto
next
  case (4 ic r s p q m e)
  from matchAt_end [OF 4(2)] 4(1) have "q \<le> mEnd m" by simp
  with 4 show ?case by (auto simp: min_def split: if_splits)
qed

definition splitRe :: "bool \<Rightarrow> regex \<Rightarrow> string \<Rightarrow> string option list" where
  "splitRe ic r s =
     (if s = [] then (case matchAt ic r s 0 of None \<Rightarrow> [Some s] | Some m \<Rightarrow> [])
      else splitLoop ic r s 0 0)"

declare rmatch.simps(8) [simp del]


section \<open>Application state and the grading entry point (App.tsx)\<close>

type_synonym GradingResult = jsval
type_synonym QuestionContext = jsval

record ProcessingState =
  isConverting :: bool
  isGrading :: bool
  error :: "string option"

text \<open>
  The state hooks of \<^verbatim>\<open>App\<close> that the grading path reads or writes, what
  \<^verbatim>\<open>handleGrading\<close> itself writes to the console, and the list of calls made to
  \<^verbatim>\<open>gradeLatexSubmission\<close>.
\<close>

record AppState =
  latexSource :: string
  gradingResult :: "GradingResult option"
  processing :: ProcessingState
  console :: "string list"
  gradingCalls :: "(string \<times> QuestionContext) list"

text \<open>
  \<^verbatim>\<open>handleGrading\<close>, from its call to its \<^verbatim>\<open>finally\<close> block. The awaited
  \<^verbatim>\<open>gradeLatexSubmission\<close> is the parameter \<open>grade\<close>: it either resolves to a result or
  rejects with an \<^verbatim>\<open>Error\<close>, whose message is the \<open>Inl\<close>. The error logged by
  \<^verbatim>\<open>console.error\<close> is kept as its message.
\<close>

definition handleGrading ::
  "(string \<Rightarrow> QuestionContext \<Rightarrow> string + GradingResult) \<Rightarrow> string \<Rightarrow> QuestionContext \<Rightarrow> AppState \<Rightarrow> AppState" where
  "handleGrading grade latex context st =
     (if trim latex = [] then st
      else
        let st1 = st\<lparr>processing := (processing st)\<lparr>isGrading := True, error := None\<rparr>,
                     gradingCalls := gradingCalls st @ [(latex, context)]\<rparr>;
            st2 = (case grade latex context of
                     Inr result \<Rightarrow> st1\<lparr>gradingResult := Some result\<rparr>
                   | Inl err \<Rightarrow> st1\<lparr>console := console st1 @ [err]\<rparr>)
        in st2\<lparr>processing := (processing st2)\<lparr>isGrading := False\<rparr>\<rparr>)"

text \<open>The effect that runs when the debounced source or the question changes.\<close>

definition gradingEffect ::
  "(string \<Rightarrow> QuestionContext \<Rightarrow> string + GradingResult) \<Rightarrow> string \<Rightarrow> QuestionContext \<Rightarrow> AppState \<Rightarrow> AppState" where
  "gradingEffect grade debouncedLatex activeQuestion st =
     (if debouncedLatex \<noteq> [] then handleGrading grade debouncedLatex activeQuestion st
      else st\<lparr>gradingResult := None\<rparr>)"


section \<open>The retry wrapper (services/geminiService.ts)\<close>

text \<open>
  What \<^verbatim>\<open>withRetry\<close> reads of a caught error: \<^verbatim>\<open>error.status\<close>,
  \<^verbatim>\<open>error.response?.status\<close> and \<^verbatim>\<open>error.message\<close>, each of which may be undefined.
\<close>

record JsError =
  status :: "int option"
  responseStatus :: "int option"
  message :: "string option"

text \<open>\<^verbatim>\<open>RETRY_CONFIG\<close>.\<close>

definition maxRetries :: nat where "maxRetries = 3"
definition initialDelay :: nat where "initialDelay = 2000"
definition backoffFactor :: nat where "backoffFactor = 2"

text \<open>\<^verbatim>\<open>error.status || error.response?.status\<close> and \<^verbatim>\<open>error.message || ''\<close>.\<close>

definition errorStatus :: "JsError \<Rightarrow> int option" where
  "errorStatus e = (case status e of
                      Some n \<Rightarrow> (if n \<noteq> 0 then Some n else responseStatus e)
                    | None \<Rightarrow> responseStatus e)"

definition errorMessage :: "JsError \<Rightarrow> string" where
  "errorMessage e = (case message e of Some m \<Rightarrow> m | None \<Rightarrow> [])"

definition isQuota :: "JsError \<Rightarrow> bool" where
  "isQuota e = (errorStatus e = Some 429 \<or> includesStr (errorMessage e) ''429''
                \<or> includesStr (toLowerCase (errorMessage e)) ''quota'')"

definition isServer :: "JsError \<Rightarrow> bool" where
  "isServer e = ((case errorStatus e of Some n \<Rightarrow> n \<ge> 500 | None \<Rightarrow> False)
                 \<or> includesStr (errorMessage e) ''500'' \<or> includesStr (errorMessage e) ''503''
                 \<or> includesStr (errorMessage e) ''overloaded'')"

text \<open>
  The retry condition \<^verbatim>\<open>isQuota || isServer\<close> written out as its seven tests on the
  status and the message.
\<close>

abbreviation retriableTests :: "JsError \<Rightarrow> bool" where
  "retriableTests e \<equiv>
     errorStatus e = Some 429
     \<or> (case errorStatus e of Some n \<Rightarrow> 500 \<le> n | None \<Rightarrow> False)
     \<or> includesStr (errorMessage e) ''429''
     \<or> includesStr (toLowerCase (errorMessage e)) ''quota''
     \<or> includesStr (errorMessage e) ''500''
     \<or> includesStr (errorMessage e) ''503''
     \<or> includesStr (errorMessage e) ''overloaded''"

text \<open>
  The loop of \<^verbatim>\<open>withRetry\<close>. The operation is an asynchronous call whose outcome is
  the environment's: \<open>operation k\<close> is what its invocation number \<open>k\<close> (from 0) settles
  to, \<open>Inl\<close> a rejection. The loop invokes it once per iteration, so the invocation
  number is \<open>attempt\<close>. It leaves by \<^verbatim>\<open>return\<close> or by \<^verbatim>\<open>break\<close>, and gives the
  number of invocations made and the delays awaited, in order, in milliseconds.
\<close>

datatype 'a LoopExit = Returned 'a | Broke "JsError option"

function retryLoop ::
  "(nat \<Rightarrow> JsError + 'a) \<Rightarrow> nat \<Rightarrow> nat \<Rightarrow> JsError option \<Rightarrow> nat list \<Rightarrow> 'a LoopExit \<times> nat \<times> nat list" where
  "retryLoop operation attempt currentDelay lastError waited =
     (if attempt \<le> maxRetries then
        (case operation attempt of
           Inr v \<Rightarrow> (Returned v, attempt + 1, waited)
         | Inl err \<Rightarrow>
             if attempt < maxRetries \<and> (isQuota err \<or> isServer err)
             then retryLoop operation (attempt + 1) (currentDelay * backoffFactor) (Some err)
                    (waited @ [currentDelay])
             else (Broke (Some err), attempt + 1, waited))
      else (Broke lastError, attempt, waited))"
  by pat_completeness auto
termination
  by (relation "measure (\<lambda>(operation, attempt, currentDelay, lastError, waited). maxRetries + 1 - attempt)") auto

record 'a RetryRun =
  outcome :: "string + 'a"
  calls :: nat
  delays :: "nat list"

text \<open>The message of the \<^verbatim>\<open>Error\<close> thrown after the loop.\<close>

definition finalError :: "JsError option \<Rightarrow> string \<Rightarrow> string" where
  "finalError lastError description =
     (let st = (case lastError of None \<Rightarrow> None | Some e \<Rightarrow> errorStatus e);
          msg = (case lastError of
                   None \<Rightarrow> ''Unknown error''
                 | Some e \<Rightarrow> (case message e of
                                None \<Rightarrow> ''Unknown error''
                              | Some m \<Rightarrow> if m = [] then ''Unknown error'' else m))
      in if st = Some 429 \<or> includesStr (toLowerCase msg) ''quota''
         then ''Usage limit exceeded for '' @ description @ ''. Please wait a moment before trying again.''
         else ''Failed to '' @ description @ '': '' @ msg)"

definition withRetry :: "(nat \<Rightarrow> JsError + 'a) \<Rightarrow> string \<Rightarrow> 'a RetryRun" where
  "withRetry operation description =
     (case retryLoop operation 0 initialDelay None [] of
        (Returned v, n, ds) \<Rightarrow> \<lparr>outcome = Inr v, calls = n, delays = ds\<rparr>
      | (Broke lastError, n, ds) \<Rightarrow>
          \<lparr>outcome = Inl (finalError lastError description), calls = n, delays = ds\<rparr>)"

declare retryLoop.simps [simp del]



section \<open>Service calls (services/geminiService.ts) and their caller\<close>

text \<open>\<^verbatim>\<open>new Error(msg)\<close>: an error with a message and no status.\<close>

definition newError :: "string \<Rightarrow> JsError" where
  "newError msg = \<lparr>status = None, responseStatus = None, message = Some msg\<rparr>"

text \<open>
  The operation that \<^verbatim>\<open>gradeLatexSubmission\<close> hands to \<^verbatim>\<open>withRetry\<close>, from the
  point where \<^verbatim>\<open>generateContent\<close> settles: a rejection propagates; a response with a
  non-empty text is parsed and the parsed value returned under an erased cast; otherwise
  an error is thrown. \<^verbatim>\<open>JSON.parse\<close> is the parameter \<open>parse\<close>, and
  \<open>generateContent k\<close> is what the service call of invocation \<open>k\<close> settles to (the text
  of the response, if it has one). The request (prompt, parts and response schema) is
  the service's input and has no part in what the client does with the response.
\<close>

definition gradeOperation ::
  "(string \<Rightarrow> JsError + jsval) \<Rightarrow> (JsError + string option) \<Rightarrow> JsError + GradingResult" where
  "gradeOperation parse response =
     (case response of
        Inl e \<Rightarrow> Inl e
      | Inr text \<Rightarrow>
          (case text of
             Some t \<Rightarrow> if t \<noteq> [] then parse t else Inl (newError ''Empty response from grading model'')
           | None \<Rightarrow> Inl (newError ''Empty response from grading model'')))"

definition gradeLatexSubmission ::
  "(string \<Rightarrow> JsError + jsval) \<Rightarrow> (nat \<Rightarrow> JsError + string option) \<Rightarrow> GradingResult RetryRun" where
  "gradeLatexSubmission parse generateContent =
     withRetry (\<lambda>k. gradeOperation parse (generateContent k)) ''grade submission''"

text \<open>
  The operation of \<^verbatim>\<open>extractQuestionFromImage\<close>: the parsed data is spread over
  \<^verbatim>\<open>{id: crypto.randomUUID()}\<close>. \<open>randomUUID k\<close> is the identifier the platform
  generates in invocation \<open>k\<close>.
\<close>

definition extractOperation ::
  "(string \<Rightarrow> JsError + jsval) \<Rightarrow> string \<Rightarrow> (JsError + string option) \<Rightarrow> JsError + QuestionContext" where
  "extractOperation parse randomUUID response =
     (case response of
        Inl e \<Rightarrow> Inl e
      | Inr text \<Rightarrow>
          (case text of
             Some t \<Rightarrow>
               if t \<noteq> [] then
                 (case parse t of
                    Inl e \<Rightarrow> Inl e
                  | Inr data \<Rightarrow> Inr (Obj ([''id'' \<mapsto> Str randomUUID] ++ ownProps data)))
               else Inl (newError ''No data returned'')
           | None \<Rightarrow> Inl (newError ''No data returned'')))"

definition extractQuestionFromImage ::
  "(string \<Rightarrow> JsError + jsval) \<Rightarrow> (nat \<Rightarrow> string) \<Rightarrow> (nat \<Rightarrow> JsError + string option) \<Rightarrow> QuestionContext RetryRun" where
  "extractQuestionFromImage parse randomUUID generateContent =
     withRetry (\<lambda>k. extractOperation parse (randomUUID k) (generateContent k)) ''extract question details''"

text \<open>
  \<^verbatim>\<open>handleScanQuestion\<close> (QuestionSetup.tsx): the question with the uploaded image
  attached, then title, description and total marks taken from the extraction where
  truthy and from the question otherwise. A failed extraction updates nothing.
\<close>

definition mergeExtracted :: "jobject \<Rightarrow> jsval \<Rightarrow> jsval \<Rightarrow> jobject" where
  "mergeExtracted question img extracted =
     (let updatedQuestion = question(''questionImage'' \<mapsto> img);
          ex = ownProps extracted
      in updatedQuestion
           (''title'' \<mapsto> orElse (getProp ex ''title'') (getProp updatedQuestion ''title''),
            ''description'' \<mapsto> orElse (getProp ex ''description'') (getProp updatedQuestion ''description''),
            ''totalMarks'' \<mapsto> orElse (getProp ex ''totalMarks'') (getProp updatedQuestion ''totalMarks'')))"

definition handleScanQuestion ::
  "jobject \<Rightarrow> jsval \<Rightarrow> QuestionContext RetryRun \<Rightarrow> jobject option" where
  "handleScanQuestion question img extraction =
     (case outcome extraction of
        Inl err \<Rightarrow> None
      | Inr extracted \<Rightarrow> Some (mergeExtracted question img extracted))"

text \<open>The question \<^verbatim>\<open>App\<close> starts with.\<close>

definition initialQuestion :: jobject where
  "initialQuestion =
     [''id'' \<mapsto> Str ''custom'', ''title'' \<mapsto> Str ''New Assignment'',
      ''description'' \<mapsto> Str ''Solve the equation $2x^2 - 4x - 6 = 0$ by using the quadratic formula.'',
      ''totalMarks'' \<mapsto> Num 100]"


text \<open>Two concrete service responses and what \<^verbatim>\<open>JSON.parse\<close> makes of them.\<close>

definition sampleGradingText :: string where
  \<open>sampleGradingText = ''{"score":5,"maxScore":10,"summary":"ok","feedback":"ok","mistakes":[],"gradingConfidence":1,"improvements":[]}''\<close>

definition sampleGrading :: jobject where
  "sampleGrading =
     [''score'' \<mapsto> Num 5, ''maxScore'' \<mapsto> Num 10, ''summary'' \<mapsto> Str ''ok'',
      ''feedback'' \<mapsto> Str ''ok'', ''mistakes'' \<mapsto> Arr [], ''gradingConfidence'' \<mapsto> Num 1,
      ''improvements'' \<mapsto> Arr []]"

definition sampleExtractionText :: string where
  \<open>sampleExtractionText = ''{"title":"","description":"X"}''\<close>

definition sampleExtraction :: jobject where
  "sampleExtraction = [''title'' \<mapsto> Str [], ''description'' \<mapsto> Str ''X'']"

definition parseGradingSample :: "string \<Rightarrow> JsError + jsval" where
  "parseGradingSample t =
     (if t = sampleGradingText then Inr (Obj sampleGrading)
      else Inl (newError ''Unexpected end of JSON input''))"

definition parseExtractionSample :: "string \<Rightarrow> JsError + jsval" where
  "parseExtractionSample t =
     (if t = sampleExtractionText then Inr (Obj sampleExtraction)
      else Inl (newError ''Unexpected end of JSON input''))"


section \<open>The math-markup renderer (components/FormattedText.tsx)\<close>

text \<open>
  \<^verbatim>\<open>delimiterRegex\<close>:
  \<^verbatim>\<open>/(\$\$[\s\S]*?\$\$|\\\[[\s\S]*?\\\]|\\\([\s\S]*?\\\)|(?:\$[^\$]+\$))/g\<close>.
\<close>

definition anyChar :: regex where
  "anyChar = Cls [CSpace, CNonSpace]"

definition delimiterRegex :: regex where
  "delimiterRegex =
     Group 1 (Alts
       [Seqs [Lit ''$$'', Star False anyChar, Lit ''$$''],
        Seqs [Lit (backslash # ''[''), Star False anyChar, Lit (backslash # '']'')],
        Seqs [Lit (backslash # ''(''), Star False anyChar, Lit (backslash # '')'')],
        Seqs [Chr CHR ''$'', Plus True (NCls [CChar CHR ''$'']), Chr CHR ''$'']])"

text \<open>
  \<^verbatim>\<open>implicitMathRegex\<close> (flags \<^verbatim>\<open>gi\<close>), one definition for each of its five
  alternatives, in their order:
  \<^verbatim>\<open>\\[a-zA-Z]+(?:\{.*?\})*(?:\s*=\s*[\d\w\.\-]+)?\<close>,
  \<^verbatim>\<open>[a-zA-Z][\w_]*(?:\^[\w\{\}\-]+|_[\w\{\}\-]+)(?:\s*=\s*[\d\w\.\-]+)?\<close>,
  \<^verbatim>\<open>\b[a-z]\s*=\s*[\d\.\-]+\<close>,
  \<^verbatim>\<open>(?:[\d]*[a-z]\^2[\s\+\-\d]*[a-z][\s\+\-\d]*)(?:\s*=\s*0)?\<close> and
  \<^verbatim>\<open>\b[\d\.]+\s*[\+\-\*\/]\s*[\d\.]+\s*=\s*[\d\.]+\<close>.
\<close>

definition spaces :: regex where
  "spaces = Star True (Cls [CSpace])"

definition letter :: citem where
  "letter = CRange CHR ''a'' CHR ''z''"

definition capital :: citem where
  "capital = CRange CHR ''A'' CHR ''Z''"

definition implicitCommand :: regex where
  "implicitCommand =
     Seqs [Chr backslash, Plus True (Cls [letter, capital]),
           Star True (Seqs [Chr CHR ''{'', Star False Dot, Chr CHR ''}'']),
           Opt (Seqs [spaces, Chr CHR ''='', spaces,
                      Plus True (Cls [CDigit, CWord, CChar CHR ''.'', CChar CHR ''-''])])]"

definition implicitScripted :: regex where
  "implicitScripted =
     Seqs [Cls [letter, capital], Star True (Cls [CWord, CChar CHR ''_'']),
           Alt (Seq (Chr CHR ''^'') (Plus True (Cls [CWord, CChar CHR ''{'', CChar CHR ''}'', CChar CHR ''-''])))
               (Seq (Chr CHR ''_'') (Plus True (Cls [CWord, CChar CHR ''{'', CChar CHR ''}'', CChar CHR ''-'']))),
           Opt (Seqs [spaces, Chr CHR ''='', spaces,
                      Plus True (Cls [CDigit, CWord, CChar CHR ''.'', CChar CHR ''-''])])]"

definition implicitAssignment :: regex where
  "implicitAssignment =
     Seqs [WordB, Cls [letter], spaces, Chr CHR ''='', spaces,
           Plus True (Cls [CDigit, CChar CHR ''.'', CChar CHR ''-''])]"

definition implicitPolynomial :: regex where
  "implicitPolynomial =
     Seqs [Seqs [Star True (Cls [CDigit]), Cls [letter], Chr CHR ''^'', Chr CHR ''2'',
                 Star True (Cls [CSpace, CChar CHR ''+'', CChar CHR ''-'', CDigit]),
                 Cls [letter],
                 Star True (Cls [CSpace, CChar CHR ''+'', CChar CHR ''-'', CDigit])],
           Opt (Seqs [spaces, Chr CHR ''='', spaces, Chr CHR ''0''])]"

definition implicitArithmetic :: regex where
  "implicitArithmetic =
     Seqs [WordB, Plus True (Cls [CDigit, CChar CHR ''.'']), spaces,
           Cls [CChar CHR ''+'', CChar CHR ''-'', CChar CHR ''*'', CChar CHR ''/''], spaces,
           Plus True (Cls [CDigit, CChar CHR ''.'']), spaces, Chr CHR ''='', spaces,
           Plus True (Cls [CDigit, CChar CHR ''.''])]"

definition implicitMathRegex :: regex where
  "implicitMathRegex =
     Group 1 (Alts [implicitCommand, implicitScripted, implicitAssignment, implicitPolynomial,
                    implicitArithmetic])"

text \<open>
  The three expressions inside \<^verbatim>\<open>TextWithImplicitMath\<close>: \<^verbatim>\<open>/[\=\^_\\]/\<close>,
  \<^verbatim>\<open>/^[a-zA-Z\s\.,]+$/\<close> and \<^verbatim>\<open>/([.,:;]+)$/\<close>.
\<close>

definition hasMathCharRegex :: regex where
  "hasMathCharRegex = Cls [CChar CHR ''='', CChar CHR ''^'', CChar CHR ''_'', CChar backslash]"

definition isEnglishRegex :: regex where
  "isEnglishRegex = Seq Bol (Seq (Plus True (Cls [letter, capital, CSpace, CChar CHR ''.'', CChar CHR '',''])) Eol)"

definition punctuationRegex :: regex where
  "punctuationRegex = Seq (Group 1 (Plus True (Cls [CChar CHR ''.'', CChar CHR '','', CChar CHR '':'', CChar CHR '';'']))) Eol"

text \<open>
  What the components return to React: a \<^verbatim>\<open>MathRenderer\<close> element with its props
  \<^verbatim>\<open>content\<close>, \<^verbatim>\<open>displayMode\<close> and \<^verbatim>\<open>fallback\<close> (false when not passed), a
  \<^verbatim>\<open>span\<close> of text, or a bare text node.
\<close>

datatype vnode =
    MathRendererEl string bool bool
  | SpanEl string
  | TextEl string

text \<open>
  \<^verbatim>\<open>TextWithImplicitMath\<close>: the callback run on each part of the split, and the
  component. A detected part is a \<^verbatim>\<open>MathRenderer\<close> element followed by the text node
  of its trailing punctuation (empty when there is none). A part that is undefined makes
  \<^verbatim>\<open>subPart.trim()\<close> throw; the component then returns nothing (\<open>None\<close>).
\<close>

definition implicitPart :: "string \<Rightarrow> vnode list" where
  "implicitPart subPart =
     (let trimmed = trim subPart in
      if trimmed = [] then [SpanEl subPart]
      else
        let hasMathChar = reTest False hasMathCharRegex trimmed;
            isEnglish = reTest False isEnglishRegex trimmed
        in if hasMathChar \<and> \<not> isEnglish \<and> length trimmed > 1 then
             (case reMatchStr False punctuationRegex subPart of
                None \<Rightarrow> [MathRendererEl subPart False True, TextEl []]
              | Some m \<Rightarrow>
                  let punctuation = matchText subPart m;
                      cleanContent = slice subPart 0 (- int (length punctuation))
                  in [MathRendererEl cleanContent False True, TextEl punctuation])
           else [SpanEl subPart])"

definition TextWithImplicitMath :: "string \<Rightarrow> vnode list option" where
  "TextWithImplicitMath content =
     map_option concat
       (those (map (map_option implicitPart) (splitRe True implicitMathRegex content)))"

text \<open>
  \<^verbatim>\<open>FormattedText\<close>: the callback run on each part of the split by the explicit
  delimiters, and the component. The elements of the nested components are listed flat,
  in document order; an empty text renders nothing.
\<close>

definition explicitPart :: "string \<Rightarrow> vnode list option" where
  "explicitPart part =
     (let isDisplayMath = startsWith part ''$$'' \<or> startsWith part (backslash # ''['');
          isInlineMath = startsWith part ''$'' \<or> startsWith part (backslash # ''('')
      in if isDisplayMath \<or> isInlineMath then
           (let cleanContent =
                  (if startsWith part ''$$'' then slice part 2 (-2)
                   else if startsWith part (backslash # ''['') then slice part 2 (-2)
                   else if startsWith part (backslash # ''('') then slice part 2 (-2)
                   else if startsWith part ''$'' then slice part 1 (-1)
                   else part)
            in Some [MathRendererEl cleanContent isDisplayMath False])
         else TextWithImplicitMath part)"

definition FormattedText :: "string \<Rightarrow> vnode list option" where
  "FormattedText text =
     (if text = [] then Some []
      else map_option concat
             (those (map (\<lambda>part. case part of None \<Rightarrow> None | Some p \<Rightarrow> explicitPart p)
                       (splitRe False delimiterRegex text))))"



text \<open>
  \<^verbatim>\<open>MathRenderer\<close>. \<open>katex\<close> is \<^verbatim>\<open>window.katex\<close>, absent or the function
  \<^verbatim>\<open>renderToString\<close>, which returns markup (\<open>Inr\<close>) or throws (\<open>Inl\<close>, the message).
  The component gives the element it displays and the calls it made to the engine:
  plain code when the engine is absent, the typeset markup, the literal text in a span
  for a failed guess, and red code with the source for a failed explicit token.
\<close>

datatype element =
    PlainCode string
  | MathSpan string bool
  | Span string
  | ErrorCode string
  | Text string

type_synonym katexApi = "string \<Rightarrow> bool \<Rightarrow> string + string"

definition MathRenderer ::
  "katexApi option \<Rightarrow> string \<Rightarrow> bool \<Rightarrow> bool \<Rightarrow> element \<times> (string \<times> bool) list" where
  "MathRenderer katex content displayMode fallback =
     (case katex of
        None \<Rightarrow> (PlainCode content, [])
      | Some renderToString \<Rightarrow>
          ((case renderToString content displayMode of
              Inr html \<Rightarrow> MathSpan html displayMode
            | Inl e \<Rightarrow> if fallback then Span content else ErrorCode content),
           [(content, displayMode)]))"

text \<open>React rendering the returned elements, and the engine calls made on the way.\<close>

fun renderNode :: "katexApi option \<Rightarrow> vnode \<Rightarrow> element \<times> (string \<times> bool) list" where
  "renderNode katex (MathRendererEl content displayMode fallback) = MathRenderer katex content displayMode fallback"
| "renderNode katex (SpanEl s) = (Span s, [])"
| "renderNode katex (TextEl s) = (Text s, [])"

definition renderTree :: "katexApi option \<Rightarrow> vnode list \<Rightarrow> element list \<times> (string \<times> bool) list" where
  "renderTree katex nodes = (map (\<lambda>n. fst (renderNode katex n)) nodes, concat (map (\<lambda>n. snd (renderNode katex n)) nodes))"

definition renderFormattedText :: "katexApi option \<Rightarrow> string \<Rightarrow> (element list \<times> (string \<times> bool) list) option" where
  "renderFormattedText katex text = map_option (renderTree katex) (FormattedText text)"


section \<open>The document preview (components/LatexPreview.tsx)\<close>

text \<open>
  \<^verbatim>\<open>MathBlock\<close> on its first render. What it displays: the span that the engine
  rendered into, an empty span (no engine, or a failure without a message), or the error
  box with its title, whether the quirks-mode note is shown, the source shown and the
  failure reason shown under it (if any).
\<close>

datatype blockView =
    RenderedSpan string
  | EmptySpan
  | ErrorBox string bool string "string option"

definition stripDelimiters :: "string \<Rightarrow> string" where
  "stripDelimiters content =
     (let cleanContent = trim content in
      if startsWith cleanContent ''$$'' \<and> endsWith cleanContent ''$$'' then slice cleanContent 2 (-2)
      else if startsWith cleanContent (backslash # ''['') \<and> endsWith cleanContent (backslash # '']'')
        then slice cleanContent 2 (-2)
      else if startsWith cleanContent ''$'' \<and> endsWith cleanContent ''$'' \<and> \<not> startsWith cleanContent ''$$''
        then slice cleanContent 1 (-1)
      else cleanContent)"

definition MathBlock :: "katexApi option \<Rightarrow> string \<Rightarrow> bool \<Rightarrow> blockView" where
  "MathBlock katex content displayMode =
     (case katex of
        None \<Rightarrow> EmptySpan
      | Some render \<Rightarrow>
          (case render (stripDelimiters content) displayMode of
             Inr html \<Rightarrow> RenderedSpan html
           | Inl err \<Rightarrow>
               if err = [] then EmptySpan
               else
                 let isQuirksMode = includesStr err ''quirks mode''
                 in ErrorBox (if isQuirksMode then ''Browser Compatibility Error'' else ''Rendering Error'')
                      isQuirksMode content (if isQuirksMode then None else Some err)))"

text \<open>
  \<^verbatim>\<open>getRenderableContent\<close>, with its expressions
  \<^verbatim>\<open>/\\begin\s*\{document\}([\s\S]*?)\\end\s*\{document\}/i\<close>,
  \<^verbatim>\<open>/\\begin\s*\{document\}/i\<close> and \<^verbatim>\<open>/\\end\s*\{document\}/i\<close>. \<open>None\<close> is
  undefined.
\<close>

definition beginDocument :: regex where
  "beginDocument = Seqs [Lit (backslash # ''begin''), spaces, Lit ''{document}'']"

definition endDocument :: regex where
  "endDocument = Seqs [Lit (backslash # ''end''), spaces, Lit ''{document}'']"

definition documentBody :: regex where
  "documentBody = Seqs [beginDocument, Group 1 (Star False anyChar), endDocument]"

definition getRenderableContent :: "string \<Rightarrow> string option" where
  "getRenderableContent fullLatex =
     (if fullLatex = [] then Some []
      else
        let bodyMatch = reMatchStr True documentBody fullLatex;
            body = (case bodyMatch of None \<Rightarrow> None | Some m \<Rightarrow> captureText fullLatex m 1)
        in case body of
             Some (b # bs) \<Rightarrow> Some (trim (b # bs))
           | _ \<Rightarrow>
               if includesStr fullLatex (backslash # ''documentclass'') then
                 (if reMatchStr True beginDocument fullLatex \<noteq> None then
                    (case splitRe True beginDocument fullLatex of
                       s0 # Some (c # cs) # rest \<Rightarrow>
                         (case splitRe True endDocument (c # cs) of
                            [] \<Rightarrow> None
                          | first # others \<Rightarrow> first)
                     | _ \<Rightarrow> Some fullLatex)
                  else Some fullLatex)
               else Some fullLatex)"


text \<open>
  For stating what the extractor returns: the length of the marker that the expressions
  \<^verbatim>\<open>\\begin\s*\{document\}\<close> and \<^verbatim>\<open>\\end\s*\{document\}\<close> recognise at the head of a
  text (the keyword in any case, white space, the braced word in any case), if there is
  one; and the state in which a capturing group leaves the matcher.
\<close>

definition braceDocument :: string where
  "braceDocument = ''{document}''"

definition markerLen :: "string \<Rightarrow> string \<Rightarrow> nat option" where
  "markerLen keyword text =
     (let n = length keyword;
          ws = takeWhile isWhiteSpace (drop n text);
          tail = drop (n + length ws) text
      in if map upperChar (take n text) = map upperChar keyword
            \<and> map upperChar (take (length braceDocument) tail) = map upperChar braceDocument
         then Some (n + length ws + length braceDocument) else None)"

definition capture :: "nat \<Rightarrow> nat \<Rightarrow> mstate \<Rightarrow> mstate" where
  "capture n n0 st = (fst st, fst (snd st), (snd (snd st))(n \<mapsto> (n0, length (fst st))))"


section \<open>The editor (components/LatexEditor.tsx)\<close>

text \<open>
  The editor's value, the selection of its textarea and the suggestion popup, and
  \<^verbatim>\<open>applySuggestion\<close>; \<open>textareaFound\<close> tells whether \<^verbatim>\<open>getElementById\<close> found
  the textarea.
\<close>

record EditorState =
  editorValue :: string
  selectionStart :: nat
  selectionEnd :: nat
  suggestions :: "string list"
  showSuggestions :: bool

definition applySuggestion :: "bool \<Rightarrow> string \<Rightarrow> EditorState \<Rightarrow> EditorState" where
  "applySuggestion textareaFound cmd st =
     (if \<not> textareaFound then st
      else
        let start = selectionStart st;
            textBefore = slice (editorValue st) 0 (int start)
        in case lastIndexOf textBefore backslash of
             None \<Rightarrow> st
           | Some lastBackslash \<Rightarrow>
               let newValue = slice (editorValue st) 0 (int lastBackslash) @ cmd
                                @ sliceFrom (editorValue st) (int start);
                   newCursor = lastBackslash + length cmd
               in st\<lparr>editorValue := newValue, showSuggestions := False,
                     selectionStart := newCursor, selectionEnd := newCursor\<rparr>)"


section \<open>Properties of the grading entry point\<close>

lemma trim_all_space:
  assumes "\<forall>c \<in> set s. isWhiteSpace c"
  shows "trim s = []"
  using assms by (auto simp: trim_def dest: set_dropWhileD)

text \<open>
  Claim C4. A grading call that fails is only logged: the grading result shown before
  the call is still the current one, the error slot holds no message (the failure's in
  particular), the failure is the one new console entry, and the in-flight flag is down.
\<close>

theorem handleGrading_failure_logged_only:
  assumes "trim latex \<noteq> []" and "grade latex context = Inl msg"
  shows "gradingResult (handleGrading grade latex context st) = gradingResult st
       \<and> error (processing (handleGrading grade latex context st)) = None
       \<and> error (processing (handleGrading grade latex context st)) \<noteq> Some msg
       \<and> console (handleGrading grade latex context st) = console st @ [msg]
       \<and> isGrading (processing (handleGrading grade latex context st)) = False
       \<and> isConverting (processing (handleGrading grade latex context st)) = isConverting (processing st)
       \<and> latexSource (handleGrading grade latex context st) = latexSource st"
  using assms by (simp add: handleGrading_def Let_def)

theorem handleGrading_failure_logged_only_witness:
  "trim ''x'' \<noteq> []
   \<and> gradingResult (handleGrading (\<lambda>l c. Inl ''Failed to grade submission: boom'') ''x'' (Obj Map.empty)
        \<lparr>latexSource = ''x'', gradingResult = Some (Obj [''score'' \<mapsto> Num 7]),
         processing = \<lparr>isConverting = False, isGrading = False, error = Some ''old''\<rparr>,
         console = [], gradingCalls = []\<rparr>) = Some (Obj [''score'' \<mapsto> Num 7])
   \<and> error (processing (handleGrading (\<lambda>l c. Inl ''Failed to grade submission: boom'') ''x'' (Obj Map.empty)
        \<lparr>latexSource = ''x'', gradingResult = Some (Obj [''score'' \<mapsto> Num 7]),
         processing = \<lparr>isConverting = False, isGrading = False, error = Some ''old''\<rparr>,
         console = [], gradingCalls = []\<rparr>)) = None"
proof -
  have h: "trim ''x'' \<noteq> []" by (simp add: trim_def isWhiteSpace_def)
  show ?thesis
    using h handleGrading_failure_logged_only [OF h, of "\<lambda>l c. Inl ''Failed to grade submission: boom''" "Obj Map.empty" "''Failed to grade submission: boom''"]
    by simp
qed

text \<open>
  Claim C10. A debounced source that is not empty but holds white space only leaves the
  whole state as it was: no grading call is issued, the in-flight flag is never raised,
  the error slot and the displayed result are untouched. The empty source resets the
  result to null.
\<close>

theorem gradingEffect_whitespace_only_is_noop:
  assumes "src \<noteq> []" and "\<forall>c \<in> set src. isWhiteSpace c"
  shows "gradingEffect grade src q st = st
       \<and> gradingCalls (gradingEffect grade src q st) = gradingCalls st
       \<and> processing (gradingEffect grade src q st) = processing st
       \<and> gradingResult (gradingEffect grade src q st) = gradingResult st
       \<and> gradingResult (gradingEffect grade [] q st) = None"
  using assms by (simp add: gradingEffect_def handleGrading_def trim_all_space)

theorem gradingEffect_whitespace_only_is_noop_witness:
  "gradingEffect (\<lambda>l c. Inr (Obj Map.empty)) '' ''  (Obj Map.empty)
        \<lparr>latexSource = '' '', gradingResult = Some (Obj [''score'' \<mapsto> Num 7]),
         processing = \<lparr>isConverting = False, isGrading = False, error = Some ''old''\<rparr>,
         console = [], gradingCalls = []\<rparr>
     = \<lparr>latexSource = '' '', gradingResult = Some (Obj [''score'' \<mapsto> Num 7]),
         processing = \<lparr>isConverting = False, isGrading = False, error = Some ''old''\<rparr>,
         console = [], gradingCalls = []\<rparr>"
proof -
  have h1: "'' '' \<noteq> []" by simp
  have h2: "\<forall>c \<in> set '' ''. isWhiteSpace c" by (simp add: isWhiteSpace_def)
  show ?thesis
    using gradingEffect_whitespace_only_is_noop [OF h1 h2] by simp
qed

section \<open>Properties of the retry wrapper\<close>

lemma retryLoop_success_after:
  assumes "a + n \<le> maxRetries"
    and "\<forall>k. a \<le> k \<and> k < a + n \<longrightarrow> (\<exists>e. operation k = Inl e \<and> (isQuota e \<or> isServer e))"
    and "operation (a + n) = Inr v"
  shows "retryLoop operation a cd le w = (Returned v, a + n + 1, w @ map (\<lambda>j. cd * backoffFactor ^ j) [0..<n])"
  using assms
proof (induction n arbitrary: a cd le w)
  case 0
  then show ?case by (simp add: retryLoop.simps)
next
  case (Suc n)
  have "a \<le> a \<and> a < a + Suc n" by simp
  with Suc.prems(2) obtain e where e: "operation a = Inl e" "isQuota e \<or> isServer e"
    by blast
  have lt: "a < maxRetries" using Suc.prems(1) by simp
  have step: "retryLoop operation a cd le w
      = retryLoop operation (a + 1) (cd * backoffFactor) (Some e) (w @ [cd])"
    using e lt by (subst retryLoop.simps) simp
  have ih: "retryLoop operation (a + 1) (cd * backoffFactor) (Some e) (w @ [cd])
      = (Returned v, (a + 1) + n + 1, (w @ [cd]) @ map (\<lambda>j. (cd * backoffFactor) * backoffFactor ^ j) [0..<n])"
  proof (rule Suc.IH)
    show "a + 1 + n \<le> maxRetries" using Suc.prems(1) by simp
    show "\<forall>k. a + 1 \<le> k \<and> k < a + 1 + n \<longrightarrow> (\<exists>e. operation k = Inl e \<and> (isQuota e \<or> isServer e))"
      using Suc.prems(2) by simp
    show "operation (a + 1 + n) = Inr v" using Suc.prems(3) by simp
  qed
  have m: "map (\<lambda>j. cd * backoffFactor ^ j) [0..<Suc n]
     = cd # map (\<lambda>j. (cd * backoffFactor) * backoffFactor ^ j) [0..<n]"
    by (simp add: upt_rec [of 0 "Suc n"] map_Suc_upt [symmetric] del: upt_Suc) 
  show ?case by (simp only: step ih m) simp
qed

lemma sum_backoff: "sum_list (map (\<lambda>j. (2000::nat) * 2 ^ j) [0..<n]) = 2000 * (2 ^ n - 1)"
  by (induction n) (auto simp: algebra_simps)


lemma retryLoop_fatal_first:
  assumes "operation a = Inl e" and "\<not> isQuota e" and "\<not> isServer e" and "a \<le> maxRetries"
  shows "retryLoop operation a cd le w = (Broke (Some e), a + 1, w)"
  using assms by (subst retryLoop.simps) simp

lemma retryLoop_retry_step:
  assumes "a < maxRetries" and "operation a = Inl e" and "isQuota e \<or> isServer e"
  shows "retryLoop operation a cd le w
       = retryLoop operation (Suc a) (cd * backoffFactor) (Some e) (w @ [cd])"
  using assms by (subst retryLoop.simps) simp

lemma retryLoop_last_attempt:
  assumes "a = maxRetries" and "operation a = Inl e"
  shows "retryLoop operation a cd le w = (Broke (Some e), Suc a, w)"
  using assms by (subst retryLoop.simps) simp

lemma retryLoop_exhausted:
  assumes "\<forall>k\<le>3. \<exists>e. operation k = Inl e \<and> (isQuota e \<or> isServer e)"
  shows "\<exists>e. retryLoop operation 0 cd le w = (Broke (Some e), 4, w @ [cd, cd * 2, cd * 4])"
proof -
  have le: "(0::nat) \<le> 3" "Suc 0 \<le> 3" "Suc (Suc 0) \<le> 3" "Suc (Suc (Suc 0)) \<le> 3" by simp_all
  from assms le(1) obtain e0 where e0: "operation 0 = Inl e0" "isQuota e0 \<or> isServer e0" by blast
  from assms le(2) obtain e1 where e1: "operation (Suc 0) = Inl e1" "isQuota e1 \<or> isServer e1" by blast
  from assms le(3) obtain e2 where e2: "operation (Suc (Suc 0)) = Inl e2" "isQuota e2 \<or> isServer e2" by blast
  from assms le(4) obtain e3 where e3: "operation (Suc (Suc (Suc 0))) = Inl e3" by blast
  have "retryLoop operation 0 cd le w
      = retryLoop operation (Suc 0) (cd * backoffFactor) (Some e0) (w @ [cd])"
    using e0 by (intro retryLoop_retry_step) (simp_all add: maxRetries_def)
  also have "\<dots> = retryLoop operation (Suc (Suc 0)) (cd * backoffFactor * backoffFactor) (Some e1)
      ((w @ [cd]) @ [cd * backoffFactor])"
    using e1 by (intro retryLoop_retry_step) (simp_all add: maxRetries_def)
  also have "\<dots> = retryLoop operation (Suc (Suc (Suc 0))) (cd * backoffFactor * backoffFactor * backoffFactor)
      (Some e2) (((w @ [cd]) @ [cd * backoffFactor]) @ [cd * backoffFactor * backoffFactor])"
    using e2 by (intro retryLoop_retry_step) (simp_all add: maxRetries_def)
  also have "\<dots> = (Broke (Some e3), Suc (Suc (Suc (Suc 0))),
      ((w @ [cd]) @ [cd * backoffFactor]) @ [cd * backoffFactor * backoffFactor])"
    using e3 by (intro retryLoop_last_attempt) (simp_all add: maxRetries_def)
  finally show ?thesis by (simp add: backoffFactor_def)
qed

lemma retryLoop_calls_bound:
  "a \<le> maxRetries + 1 \<Longrightarrow> fst (snd (retryLoop operation a cd le w)) \<le> maxRetries + 1"
proof (induction operation a cd le w rule: retryLoop.induct)
  case (1 operation attempt currentDelay lastError waited)
  show ?case
  proof (cases "attempt \<le> maxRetries")
    case False
    with "1.prems" show ?thesis by (subst retryLoop.simps) simp
  next
    case True
    show ?thesis
    proof (cases "operation attempt")
      case (Inr v)
      with True show ?thesis by (subst retryLoop.simps) simp
    next
      case (Inl err)
      show ?thesis
      proof (cases "attempt < maxRetries \<and> (isQuota err \<or> isServer err)")
        case False
        with True Inl show ?thesis by (subst retryLoop.simps) auto
      next
        case c: True
        have "fst (snd (retryLoop operation (attempt + 1) (currentDelay * backoffFactor) (Some err)
                    (waited @ [currentDelay]))) \<le> maxRetries + 1"
          using "1.IH" [OF True Inl c] c by simp
        with True Inl c show ?thesis by (subst retryLoop.simps) simp
      qed
    qed
  qed
qed

lemma withRetry_runs:
  fixes operation :: "nat \<Rightarrow> JsError + 'a"
  shows "(N \<le> 3 \<and> (\<forall>k<N. \<exists>e. operation k = Inl e \<and> (isQuota e \<or> isServer e))
            \<and> operation N = Inr v
          \<longrightarrow> outcome (withRetry operation d) = Inr v
              \<and> calls (withRetry operation d) = N + 1
              \<and> delays (withRetry operation d) = map (\<lambda>k. 2000 * 2 ^ k) [0..<N]
              \<and> sum_list (delays (withRetry operation d)) = 2000 * (2 ^ N - 1))
       \<and> (operation 0 = Inl e \<and> \<not> isQuota e \<and> \<not> isServer e
          \<longrightarrow> outcome (withRetry operation d) = Inl (finalError (Some e) d)
              \<and> calls (withRetry operation d) = 1
              \<and> delays (withRetry operation d) = [])
       \<and> ((\<forall>k\<le>3. \<exists>e. operation k = Inl e \<and> (isQuota e \<or> isServer e))
          \<longrightarrow> (\<exists>msg. outcome (withRetry operation d) = Inl msg)
              \<and> calls (withRetry operation d) = 4
              \<and> delays (withRetry operation d) = [2000, 4000, 8000])
       \<and> calls (withRetry operation d) \<le> 4"
proof (intro conjI impI)
  assume h: "N \<le> 3 \<and> (\<forall>k<N. \<exists>e. operation k = Inl e \<and> (isQuota e \<or> isServer e))
            \<and> operation N = Inr v"
  have loop: "retryLoop operation 0 initialDelay None []
      = (Returned v, 0 + N + 1, [] @ map (\<lambda>j. initialDelay * backoffFactor ^ j) [0..<N])"
    by (rule retryLoop_success_after) (use h in \<open>simp_all add: maxRetries_def\<close>)
  show "outcome (withRetry operation d) = Inr v"
    by (simp add: withRetry_def loop)
  show "calls (withRetry operation d) = N + 1"
    by (simp add: withRetry_def loop)
  show ds: "delays (withRetry operation d) = map (\<lambda>k. 2000 * 2 ^ k) [0..<N]"
    unfolding withRetry_def loop by (simp add: initialDelay_def backoffFactor_def)
  show "sum_list (delays (withRetry operation d)) = 2000 * (2 ^ N - 1)"
    by (simp only: ds sum_backoff)
next
  assume h: "operation 0 = Inl e \<and> \<not> isQuota e \<and> \<not> isServer e"
  then have loop: "retryLoop operation 0 initialDelay None [] = (Broke (Some e), 0 + 1, [])"
    by (intro retryLoop_fatal_first) simp_all
  show "outcome (withRetry operation d) = Inl (finalError (Some e) d)"
    by (simp add: withRetry_def loop)
  show "calls (withRetry operation d) = 1"
    by (simp add: withRetry_def loop)
  show "delays (withRetry operation d) = []"
    by (simp add: withRetry_def loop)
next
  assume h: "\<forall>k\<le>3. \<exists>e. operation k = Inl e \<and> (isQuota e \<or> isServer e)"
  from retryLoop_exhausted [OF h, of initialDelay None "[]"]
  obtain e where loop: "retryLoop operation 0 initialDelay None []
      = (Broke (Some e), 4, [] @ [initialDelay, initialDelay * 2, initialDelay * 4])"
    by blast
  show "\<exists>msg. outcome (withRetry operation d) = Inl msg"
    by (simp add: withRetry_def loop)
  show "calls (withRetry operation d) = 4"
    by (simp add: withRetry_def loop)
  show "delays (withRetry operation d) = [2000, 4000, 8000]"
    unfolding withRetry_def loop by (simp add: initialDelay_def)
next
  have "fst (snd (retryLoop operation 0 initialDelay None [])) \<le> maxRetries + 1"
    by (rule retryLoop_calls_bound) simp
  then show "calls (withRetry operation d) \<le> 4"
    by (auto simp: withRetry_def maxRetries_def split: prod.splits LoopExit.splits)
qed

lemma retriableTests_iff: "retriableTests e \<longleftrightarrow> isQuota e \<or> isServer e"
  by (auto simp: isQuota_def isServer_def)

text \<open>
  Claim C1, as amended. A failure is retriable exactly when one of the tests of the code
  holds: its status (\<^verbatim>\<open>error.status || error.response?.status\<close>) is 429 or at least 500,
  or its message contains \<^verbatim>\<open>429\<close>, \<^verbatim>\<open>500\<close>, \<^verbatim>\<open>503\<close> or \<^verbatim>\<open>overloaded\<close>, or contains
  \<^verbatim>\<open>quota\<close> in any letter case. When the first \<open>N \<le> 3\<close> invocations fail retriably
  and the next one succeeds, \<^verbatim>\<open>withRetry\<close> returns that result after \<open>N + 1\<close>
  invocations and the delays 2000, 4000, ... (doubling), which sum to
  \<open>2000 * (2 ^ N - 1)\<close> ms. When the first invocation fails with any other error, the
  operation is invoked once and nothing is awaited. When all of the first four invocations
  fail retriably, the run ends in an error after 4 invocations and the delays 2000, 4000
  and 8000. No run makes more than 4 invocations.
\<close>

theorem withRetry_backoff:
  fixes operation :: "nat \<Rightarrow> JsError + 'a"
  shows "(N \<le> 3 \<and> (\<forall>k<N. \<exists>e. operation k = Inl e \<and> retriableTests e)
            \<and> operation N = Inr v
          \<longrightarrow> outcome (withRetry operation d) = Inr v
              \<and> calls (withRetry operation d) = N + 1
              \<and> delays (withRetry operation d) = map (\<lambda>k. 2000 * 2 ^ k) [0..<N]
              \<and> sum_list (delays (withRetry operation d)) = 2000 * (2 ^ N - 1))
       \<and> (operation 0 = Inl e \<and> \<not> retriableTests e
          \<longrightarrow> outcome (withRetry operation d) = Inl (finalError (Some e) d)
              \<and> calls (withRetry operation d) = 1
              \<and> delays (withRetry operation d) = [])
       \<and> ((\<forall>k\<le>3. \<exists>e. operation k = Inl e \<and> retriableTests e)
          \<longrightarrow> (\<exists>msg. outcome (withRetry operation d) = Inl msg)
              \<and> calls (withRetry operation d) = 4
              \<and> delays (withRetry operation d) = [2000, 4000, 8000])
       \<and> calls (withRetry operation d) \<le> 4
       \<and> (retriableTests e' \<longleftrightarrow> isQuota e' \<or> isServer e')"
  unfolding retriableTests_iff
  using withRetry_runs [of N operation v d e] by blast

theorem withRetry_backoff_witness:
  "outcome (withRetry (\<lambda>k. if k < 2 then Inl \<lparr>status = Some 429, responseStatus = None, message = Some ''Too Many Requests''\<rparr> else Inr (5::nat)) ''grade submission'') = Inr 5
   \<and> calls (withRetry (\<lambda>k. if k < 2 then Inl \<lparr>status = Some 429, responseStatus = None, message = Some ''Too Many Requests''\<rparr> else Inr (5::nat)) ''grade submission'') = 3
   \<and> delays (withRetry (\<lambda>k. if k < 2 then Inl \<lparr>status = Some 429, responseStatus = None, message = Some ''Too Many Requests''\<rparr> else Inr (5::nat)) ''grade submission'') = [2000, 4000]
   \<and> calls (withRetry (\<lambda>k. Inl \<lparr>status = Some 400, responseStatus = None, message = Some ''Bad Request''\<rparr> :: JsError + nat) ''grade submission'') = 1
   \<and> delays (withRetry (\<lambda>k. Inl \<lparr>status = Some 400, responseStatus = None, message = Some ''Bad Request''\<rparr> :: JsError + nat) ''grade submission'') = []
   \<and> calls (withRetry (\<lambda>k. Inl \<lparr>status = Some 503, responseStatus = None, message = Some ''Service Unavailable''\<rparr> :: JsError + nat) ''grade submission'') = 4
   \<and> delays (withRetry (\<lambda>k. Inl \<lparr>status = Some 503, responseStatus = None, message = Some ''Service Unavailable''\<rparr> :: JsError + nat) ''grade submission'') = [2000, 4000, 8000]"
proof -
  let ?q = "\<lparr>status = Some 429, responseStatus = None, message = Some ''Too Many Requests''\<rparr>"
  let ?f = "\<lparr>status = Some 400, responseStatus = None, message = Some ''Bad Request''\<rparr>"
  let ?u = "\<lparr>status = Some 503, responseStatus = None, message = Some ''Service Unavailable''\<rparr>"
  have q: "retriableTests ?q" by (simp add: errorStatus_def)
  have f: "\<not> retriableTests ?f"
    by (simp add: errorStatus_def errorMessage_def toLowerCase_def lowerChar_def)
  have u: "retriableTests ?u" by (simp add: errorStatus_def)
  have up: "[0..<2] = [0, 1]" by (simp add: upt_rec)
  show ?thesis
    using withRetry_backoff [where N = 2 and operation = "\<lambda>k. if k < 2 then Inl ?q else Inr (5::nat)"
        and v = 5 and d = "''grade submission''"]
      withRetry_backoff [where operation = "\<lambda>k. Inl ?f :: JsError + nat" and e = ?f
        and d = "''grade submission''"]
      withRetry_backoff [where operation = "\<lambda>k. Inl ?u :: JsError + nat"
        and d = "''grade submission''"]
      q f u
    by (simp add: up)
qed

text \<open>
  The claim C1 as stated fails in both directions. An error with status 400 whose message
  happens to contain \<^verbatim>\<open>500\<close> is neither a quota nor a server error, yet it is retried
  three times. An error without a status whose message is \<^verbatim>\<open>Service Unavailable\<close>
  tells of unavailability, yet the operation is invoked once and nothing is awaited.
\<close>

theorem withRetry_classes_counterexample:
  "calls (withRetry (\<lambda>k. Inl \<lparr>status = Some 400, responseStatus = None,
              message = Some ''Bad Request: max_tokens 1500 is invalid''\<rparr> :: JsError + nat) ''grade submission'') = 4
   \<and> delays (withRetry (\<lambda>k. Inl \<lparr>status = Some 400, responseStatus = None,
              message = Some ''Bad Request: max_tokens 1500 is invalid''\<rparr> :: JsError + nat) ''grade submission'')
        = [2000, 4000, 8000]
   \<and> calls (withRetry (\<lambda>k. Inl \<lparr>status = None, responseStatus = None,
              message = Some ''Service Unavailable''\<rparr> :: JsError + nat) ''grade submission'') = 1
   \<and> delays (withRetry (\<lambda>k. Inl \<lparr>status = None, responseStatus = None,
              message = Some ''Service Unavailable''\<rparr> :: JsError + nat) ''grade submission'') = []"
proof -
  let ?b = "\<lparr>status = Some 400, responseStatus = None,
              message = Some ''Bad Request: max_tokens 1500 is invalid''\<rparr>"
  let ?s = "\<lparr>status = None, responseStatus = None, message = Some ''Service Unavailable''\<rparr>"
  have b: "isQuota ?b \<or> isServer ?b"
    by (simp add: isServer_def errorMessage_def)
  have s: "\<not> isQuota ?s \<and> \<not> isServer ?s"
    by (simp add: isQuota_def isServer_def errorStatus_def errorMessage_def toLowerCase_def lowerChar_def)
  show ?thesis
    using withRetry_runs [where operation = "\<lambda>k. Inl ?b :: JsError + nat" and d = "''grade submission''"]
      withRetry_runs [where operation = "\<lambda>k. Inl ?s :: JsError + nat" and e = ?s
        and d = "''grade submission''"]
      b s
    by simp
qed


section \<open>Properties of the service calls\<close>

lemma withRetry_success_after:
  assumes "N \<le> 3"
    and "\<forall>k<N. \<exists>e. operation k = Inl e \<and> (isQuota e \<or> isServer e)"
    and "operation N = Inr v"
  shows "withRetry operation d
       = \<lparr>outcome = Inr v, calls = N + 1, delays = map (\<lambda>k. 2000 * 2 ^ k) [0..<N]\<rparr>"
proof -
  have "retryLoop operation 0 initialDelay None []
      = (Returned v, 0 + N + 1, [] @ map (\<lambda>j. initialDelay * backoffFactor ^ j) [0..<N])"
    by (rule retryLoop_success_after) (use assms in \<open>simp_all add: maxRetries_def\<close>)
  then show ?thesis
    unfolding withRetry_def by (simp add: initialDelay_def backoffFactor_def)
qed

text \<open>
  Claim C3, as amended. A grading response whose text parses to an object without
  \<^verbatim>\<open>mistakeTypes\<close> is not rejected: \<^verbatim>\<open>gradeLatexSubmission\<close> returns the parsed
  object as it is, with \<^verbatim>\<open>mistakeTypes\<close> absent (reading it gives undefined; no default
  is substituted), also when the response comes after retried failures.
\<close>

theorem gradeLatexSubmission_returns_unvalidated:
  assumes "N \<le> 3"
    and "\<forall>k<N. \<exists>e. generateContent k = Inl e \<and> (isQuota e \<or> isServer e)"
    and "generateContent N = Inr (Some t)" and "t \<noteq> []"
    and "parse t = Inr (Obj props)" and "\<not> hasProp props ''mistakeTypes''"
  shows "outcome (gradeLatexSubmission parse generateContent) = Inr (Obj props)
       \<and> getProp props ''mistakeTypes'' = Undefined
       \<and> calls (gradeLatexSubmission parse generateContent) = N + 1"
proof -
  have ok: "gradeOperation parse (generateContent N) = Inr (Obj props)"
    using assms by (simp add: gradeOperation_def)
  have fails: "\<forall>k<N. \<exists>e. gradeOperation parse (generateContent k) = Inl e \<and> (isQuota e \<or> isServer e)"
    using assms(2) by (auto simp: gradeOperation_def)
  have "gradeLatexSubmission parse generateContent
      = \<lparr>outcome = Inr (Obj props), calls = N + 1, delays = map (\<lambda>k. 2000 * 2 ^ k) [0..<N]\<rparr>"
    unfolding gradeLatexSubmission_def using assms(1) fails ok by (rule withRetry_success_after)
  moreover have "getProp props ''mistakeTypes'' = Undefined"
    using assms(6) by (simp add: hasProp_def getProp_def)
  ultimately show ?thesis by simp
qed

lemma sampleGrading_no_mistakeTypes: "\<not> hasProp sampleGrading ''mistakeTypes''"
  by (simp add: hasProp_def sampleGrading_def)

lemma parseGradingSample_text: "parseGradingSample sampleGradingText = Inr (Obj sampleGrading)"
  by (simp add: parseGradingSample_def)

lemma sampleGradingText_nonempty: "sampleGradingText \<noteq> []"
  by (simp add: sampleGradingText_def)

theorem gradeLatexSubmission_returns_unvalidated_witness:
  "outcome (gradeLatexSubmission parseGradingSample (\<lambda>k. Inr (Some sampleGradingText))) = Inr (Obj sampleGrading)
   \<and> getProp sampleGrading ''mistakeTypes'' = Undefined
   \<and> calls (gradeLatexSubmission parseGradingSample (\<lambda>k. Inr (Some sampleGradingText))) = 1"
  using gradeLatexSubmission_returns_unvalidated [where N = 0 and parse = parseGradingSample
      and generateContent = "\<lambda>k. Inr (Some sampleGradingText)" and t = sampleGradingText
      and props = sampleGrading]
    sampleGrading_no_mistakeTypes parseGradingSample_text sampleGradingText_nonempty
  by simp

text \<open>
  The claim C3 as stated fails: on a response without \<^verbatim>\<open>mistakeTypes\<close> the call
  succeeds, and returns an object in which the field is absent.
\<close>

theorem gradeLatexSubmission_missing_field_counterexample:
  "outcome (gradeLatexSubmission parseGradingSample (\<lambda>k. Inr (Some sampleGradingText))) = Inr (Obj sampleGrading)
   \<and> \<not> hasProp sampleGrading ''mistakeTypes''
   \<and> (\<nexists>msg. outcome (gradeLatexSubmission parseGradingSample (\<lambda>k. Inr (Some sampleGradingText))) = Inl msg)"
proof -
  have "gradeOperation parseGradingSample (Inr (Some sampleGradingText)) = Inr (Obj sampleGrading)"
    by (simp add: gradeOperation_def parseGradingSample_text sampleGradingText_nonempty)
  then have "outcome (gradeLatexSubmission parseGradingSample (\<lambda>k. Inr (Some sampleGradingText))) = Inr (Obj sampleGrading)"
    by (simp add: gradeLatexSubmission_def withRetry_def retryLoop.simps)
  then show ?thesis using sampleGrading_no_mistakeTypes by simp
qed

text \<open>
  Claim C2, as amended. When the parsed response has no \<^verbatim>\<open>totalMarks\<close> (and no
  \<^verbatim>\<open>id\<close> of its own), the returned object has no \<^verbatim>\<open>totalMarks\<close> either (no
  default is substituted), its description is the response's, and its \<^verbatim>\<open>id\<close> is the
  identifier the platform generated for the call. The caller then keeps the total marks of
  the question being edited.
\<close>

theorem extractQuestionFromImage_no_client_default:
  assumes "N \<le> 3"
    and "\<forall>k<N. \<exists>e. generateContent k = Inl e \<and> (isQuota e \<or> isServer e)"
    and "generateContent N = Inr (Some t)" and "t \<noteq> []"
    and "parse t = Inr (Obj data)"
    and "\<not> hasProp data ''totalMarks''" and "\<not> hasProp data ''id''"
  shows "outcome (extractQuestionFromImage parse randomUUID generateContent)
           = Inr (Obj ([''id'' \<mapsto> Str (randomUUID N)] ++ data))
       \<and> \<not> hasProp ([''id'' \<mapsto> Str (randomUUID N)] ++ data) ''totalMarks''
       \<and> getProp ([''id'' \<mapsto> Str (randomUUID N)] ++ data) ''description'' = getProp data ''description''
       \<and> getProp ([''id'' \<mapsto> Str (randomUUID N)] ++ data) ''id'' = Str (randomUUID N)
       \<and> getProp (mergeExtracted question img (Obj ([''id'' \<mapsto> Str (randomUUID N)] ++ data))) ''totalMarks''
           = getProp question ''totalMarks''"
proof -
  let ?r = "[''id'' \<mapsto> Str (randomUUID N)] ++ data"
  have ok: "extractOperation parse (randomUUID N) (generateContent N) = Inr (Obj ?r)"
    using assms by (simp add: extractOperation_def ownProps_def)
  have fails: "\<forall>k<N. \<exists>e. extractOperation parse (randomUUID k) (generateContent k) = Inl e
                 \<and> (isQuota e \<or> isServer e)"
    using assms(2) by (auto simp: extractOperation_def)
  have run: "extractQuestionFromImage parse randomUUID generateContent
      = \<lparr>outcome = Inr (Obj ?r), calls = N + 1, delays = map (\<lambda>k. 2000 * 2 ^ k) [0..<N]\<rparr>"
    unfolding extractQuestionFromImage_def using assms(1) fails ok by (rule withRetry_success_after)
  have a: "\<not> hasProp ?r ''totalMarks''"
    using assms(6) by (simp add: hasProp_def map_add_def)
  have b: "getProp ?r ''description'' = getProp data ''description''"
    by (simp add: getProp_def map_add_def split: option.splits)
  have c: "getProp ?r ''id'' = Str (randomUUID N)"
    using assms(7) by (simp add: getProp_def hasProp_def map_add_def)
  have d: "getProp (mergeExtracted question img (Obj ?r)) ''totalMarks'' = getProp question ''totalMarks''"
    using a by (simp add: mergeExtracted_def ownProps_def getProp_def hasProp_def orElse_def Let_def map_add_def)
  show ?thesis using run a b c d by simp
qed

lemma sampleExtraction_props:
  "\<not> hasProp sampleExtraction ''totalMarks''" "\<not> hasProp sampleExtraction ''id''"
  "parseExtractionSample sampleExtractionText = Inr (Obj sampleExtraction)" "sampleExtractionText \<noteq> []"
  by (simp_all add: hasProp_def sampleExtraction_def parseExtractionSample_def sampleExtractionText_def)

theorem extractQuestionFromImage_no_client_default_witness:
  "outcome (extractQuestionFromImage parseExtractionSample (\<lambda>k. ''3f2b'') (\<lambda>k. Inr (Some sampleExtractionText)))
           = Inr (Obj ([''id'' \<mapsto> Str ''3f2b''] ++ sampleExtraction))
   \<and> getProp ([''id'' \<mapsto> Str ''3f2b''] ++ sampleExtraction) ''description'' = Str ''X''
   \<and> getProp (mergeExtracted initialQuestion Null (Obj ([''id'' \<mapsto> Str ''3f2b''] ++ sampleExtraction))) ''totalMarks''
           = Num 100"
  using extractQuestionFromImage_no_client_default [where N = 0 and parse = parseExtractionSample
      and generateContent = "\<lambda>k. Inr (Some sampleExtractionText)" and t = sampleExtractionText
      and data = sampleExtraction and randomUUID = "\<lambda>k. ''3f2b''" and question = initialQuestion
      and img = Null]
    sampleExtraction_props
  by (simp add: getProp_def sampleExtraction_def initialQuestion_def)

text \<open>
  The claim C2 as stated fails: for the response \<^verbatim>\<open>{title: "", description: "X"}\<close> the
  returned total marks are undefined, not 10, and the caller ends with the 100 of the
  initial question.
\<close>

theorem extractQuestionFromImage_default_counterexample:
  "outcome (extractQuestionFromImage parseExtractionSample (\<lambda>k. ''3f2b'') (\<lambda>k. Inr (Some sampleExtractionText)))
           = Inr (Obj ([''id'' \<mapsto> Str ''3f2b''] ++ sampleExtraction))
   \<and> getProp ([''id'' \<mapsto> Str ''3f2b''] ++ sampleExtraction) ''totalMarks'' = Undefined
   \<and> getProp ([''id'' \<mapsto> Str ''3f2b''] ++ sampleExtraction) ''totalMarks'' \<noteq> Num 10
   \<and> getProp (mergeExtracted initialQuestion Null (Obj ([''id'' \<mapsto> Str ''3f2b''] ++ sampleExtraction))) ''totalMarks''
           \<noteq> Num 10"
proof -
  have "extractOperation parseExtractionSample ''3f2b'' (Inr (Some sampleExtractionText))
      = Inr (Obj ([''id'' \<mapsto> Str ''3f2b''] ++ sampleExtraction))"
    by (simp add: extractOperation_def sampleExtraction_props ownProps_def)
  then have "outcome (extractQuestionFromImage parseExtractionSample (\<lambda>k. ''3f2b'') (\<lambda>k. Inr (Some sampleExtractionText)))
           = Inr (Obj ([''id'' \<mapsto> Str ''3f2b''] ++ sampleExtraction))"
    by (simp add: extractQuestionFromImage_def withRetry_def retryLoop.simps)
  moreover have "getProp ([''id'' \<mapsto> Str ''3f2b''] ++ sampleExtraction) ''totalMarks'' = Undefined"
    by (simp add: getProp_def sampleExtraction_def map_add_def)
  moreover have "getProp (mergeExtracted initialQuestion Null (Obj ([''id'' \<mapsto> Str ''3f2b''] ++ sampleExtraction))) ''totalMarks''
           = Num 100"
    by (simp add: mergeExtracted_def ownProps_def getProp_def orElse_def Let_def sampleExtraction_def
        initialQuestion_def map_add_def)
  ultimately show ?thesis by simp
qed

section \<open>Properties of the renderer\<close>

lemma concat_map_concat: "concat (map f (concat xss)) = concat (map (\<lambda>xs. concat (map f xs)) xss)"
  by (induction xss) auto

lemma rmatch_Seq_assoc: "rmatch ic (Seq (Seq a b) c) st = rmatch ic (Seq a (Seq b c)) st"
proof -
  have "rmatch ic (Seq b c) = (\<lambda>x. concat (map (rmatch ic c) (rmatch ic b x)))"
    by (rule ext) simp
  then show ?thesis
    by (simp add: concat_map_concat comp_def)
qed

lemma notDollar_star_step:
  "rmatch False (Star True (NCls [CChar CHR ''$''])) (pre, x # xs, c)
     = (if x \<noteq> CHR ''$'' then rmatch False (Star True (NCls [CChar CHR ''$''])) (x # pre, xs, c) @ [(pre, x # xs, c)]
        else [(pre, x # xs, c)])"
  by (subst rmatch.simps(8)) (simp add: classHas_def resetCaps_def)

lemma notDollar_run:
  assumes "\<forall>x \<in> set xs. x \<noteq> CHR ''$''"
  shows "rmatch False (Seq (Star True (NCls [CChar CHR ''$''])) (Chr CHR ''$'')) (pre, xs @ CHR ''$'' # ys, c)
       = [(CHR ''$'' # rev xs @ pre, ys, c)]"
  using assms
proof (induction xs arbitrary: pre)
  case Nil
  then show ?case by (simp add: notDollar_star_step charEq_def)
next
  case (Cons x xs)
  then have x: "x \<noteq> CHR ''$''" and xs: "\<forall>x \<in> set xs. x \<noteq> CHR ''$''" by auto
  have ih: "concat (map (rmatch False (Chr CHR ''$'')) (rmatch False (Star True (NCls [CChar CHR ''$''])) (x # pre, xs @ CHR ''$'' # ys, c)))
       = [(CHR ''$'' # rev xs @ x # pre, ys, c)]"
    using Cons.IH [OF xs, of "x # pre"] by simp
  show ?case
    using x by (simp add: notDollar_star_step charEq_def ih)
qed

lemma delimiterRegex_single_dollar:
  assumes "s \<noteq> []" and "CHR ''$'' \<notin> set s"
  shows "rmatch False delimiterRegex ([], CHR ''$'' # s @ ''$'', Map.empty)
       = [(rev (CHR ''$'' # s @ ''$''), [], [1 \<mapsto> (0, length s + 2)])]"
proof -
  from assms obtain x xs where s: "s = x # xs" and x: "x \<noteq> CHR ''$''" and xs: "\<forall>y \<in> set xs. y \<noteq> CHR ''$''"
    by (cases s) auto
  have run: "concat (map (rmatch False (Chr CHR ''$'')) (rmatch False (Star True (NCls [CChar CHR ''$''])) ([x, CHR ''$''], xs @ ''$'', Map.empty)))
       = [(CHR ''$'' # rev xs @ [x, CHR ''$''], [], Map.empty)]"
    using notDollar_run [OF xs, of "[x, CHR ''$'']" "[]" Map.empty] by simp
  show ?thesis
    unfolding delimiterRegex_def s
    using x by (simp add: Plus_def rmatch_Seq_assoc charEq_def classHas_def backslash_def run)
qed

lemma splitRe_single_dollar:
  assumes "s \<noteq> []" and "CHR ''$'' \<notin> set s"
  shows "splitRe False delimiterRegex (CHR ''$'' # s @ ''$'') = [Some [], Some (CHR ''$'' # s @ ''$''), Some []]"
proof -
  let ?S = "CHR ''$'' # s @ ''$''"
  have m: "matchAt False delimiterRegex ?S 0
         = Some \<lparr>mIndex = 0, mEnd = length s + 2, mCaps = [1 \<mapsto> (0, length s + 2)]\<rparr>"
    using delimiterRegex_single_dollar [OF assms] by (simp add: matchAt_def mstart_def)
  have g: "groupsOf delimiterRegex = [1]"
    by (simp add: delimiterRegex_def Plus_def anyChar_def)
  have last: "splitLoop False delimiterRegex ?S (length s + 2) (length s + 2) = [Some []]"
    by (subst splitLoop.simps) (simp add: substring_def)
  show ?thesis
    unfolding splitRe_def
    by (subst splitLoop.simps) (simp add: m g last substring_def captureText_def)
qed

lemma TextWithImplicitMath_empty: "TextWithImplicitMath [] = Some [SpanEl []]"
  by code_simp

lemma explicitPart_empty: "explicitPart [] = Some [SpanEl []]"
  by (simp add: explicitPart_def TextWithImplicitMath_empty)

lemma explicitPart_single_dollar:
  assumes "s \<noteq> []" and "CHR ''$'' \<notin> set s"
  shows "explicitPart (CHR ''$'' # s @ ''$'') = Some [MathRendererEl s False False]"
proof -
  from assms obtain x xs where s: "s = x # xs" and x: "x \<noteq> CHR ''$''"
    by (cases s) auto
  have sl: "slice (CHR ''$'' # s @ ''$'') 1 (-1) = s"
    by (simp add: slice_def sliceIndex_def Let_def)
  show ?thesis
    using x sl by (simp add: explicitPart_def s backslash_def)
qed

text \<open>
  Claim C6. For a non-empty \<open>s\<close> without a dollar sign, \<^verbatim>\<open>FormattedText\<close> on
  \<open>$s$\<close> yields exactly one math token, between two empty text spans: a
  \<^verbatim>\<open>MathRenderer\<close> element whose content is exactly \<open>s\<close> (the outer dollar pair and
  nothing else stripped), in inline mode and not as a fallback guess. With the engine
  loaded, the one call made to it is \<open>renderToString s\<close> in inline mode.
\<close>

theorem FormattedText_single_dollar:
  assumes "s \<noteq> []" and "CHR ''$'' \<notin> set s"
  shows "FormattedText (CHR ''$'' # s @ ''$'') = Some [SpanEl [], MathRendererEl s False False, SpanEl []]
       \<and> renderFormattedText (Some renderToString) (CHR ''$'' # s @ ''$'')
           = Some ([Span [],
                    (case renderToString s False of Inr html \<Rightarrow> MathSpan html False | Inl e \<Rightarrow> ErrorCode s),
                    Span []],
                   [(s, False)])"
proof -
  have ft: "FormattedText (CHR ''$'' # s @ ''$'') = Some [SpanEl [], MathRendererEl s False False, SpanEl []]"
    by (simp add: FormattedText_def splitRe_single_dollar [OF assms] explicitPart_empty
        explicitPart_single_dollar [OF assms])
  then show ?thesis
    by (simp add: renderFormattedText_def renderTree_def MathRenderer_def)
qed

theorem FormattedText_single_dollar_witness:
  "FormattedText ''$x^2$'' = Some [SpanEl [], MathRendererEl ''x^2'' False False, SpanEl []]
   \<and> renderFormattedText (Some (\<lambda>c d. Inr (''<katex>'' @ c))) ''$x^2$''
        = Some ([Span [], MathSpan ''<katex>x^2'' False, Span []], [(''x^2'', False)])"
  using FormattedText_single_dollar [where s = "''x^2''" and renderToString = "\<lambda>c d. Inr (''<katex>'' @ c)"]
  by simp

lemma FormattedText_a_eq_2:
  "FormattedText ''a=2'' = Some [SpanEl [], MathRendererEl ''a=2'' False True, TextEl [], SpanEl []]"
  by code_simp

lemma implicitMathRegex_a_b_c: "splitRe True implicitMathRegex ''a b c'' = [Some ''a b c'']"
  by code_simp

lemma FormattedText_a_b_c: "FormattedText ''a b c'' = Some [SpanEl ''a b c'']"
  by code_simp

text \<open>
  Claim C8. The input \<open>a=2\<close>, without delimiters, is matched by the implicit-math
  expression: it becomes a \<^verbatim>\<open>MathRenderer\<close> element (a fallback guess, inline), and with
  the engine loaded it is submitted to \<^verbatim>\<open>renderToString\<close>. The input \<open>a b c\<close> matches no
  alternative of the expression (the split returns it whole) and is rendered as one span
  of plain text, with no call to the engine.
\<close>

theorem implicit_math_examples:
  "FormattedText ''a=2'' = Some [SpanEl [], MathRendererEl ''a=2'' False True, TextEl [], SpanEl []]
   \<and> renderFormattedText (Some renderToString) ''a=2''
        = Some ([Span [],
                 (case renderToString ''a=2'' False of Inr html \<Rightarrow> MathSpan html False | Inl e \<Rightarrow> Span ''a=2''),
                 Text [], Span []],
                [(''a=2'', False)])
   \<and> splitRe True implicitMathRegex ''a b c'' = [Some ''a b c'']
   \<and> FormattedText ''a b c'' = Some [SpanEl ''a b c'']
   \<and> renderFormattedText katex ''a b c'' = Some ([Span ''a b c''], [])"
  by (simp add: renderFormattedText_def FormattedText_a_eq_2 FormattedText_a_b_c
      implicitMathRegex_a_b_c renderTree_def MathRenderer_def)


lemma implicitPart_fallback:
  "MathRendererEl content displayMode fallback \<in> set (implicitPart p) \<Longrightarrow> fallback \<and> \<not> displayMode"
  by (auto simp: implicitPart_def Let_def split: if_splits option.splits)

lemma explicitPart_no_fallback:
  assumes "startsWith p ''$'' \<or> startsWith p (backslash # ''('') \<or> startsWith p (backslash # ''['')"
  shows "\<exists>content displayMode. explicitPart p = Some [MathRendererEl content displayMode False]"
  using assms by (auto simp: explicitPart_def Let_def)

text \<open>
  Claim C7, as amended. When the typesetting call fails: in \<^verbatim>\<open>FormattedText\<close>, a token
  that was a heuristic guess (these are the tokens rendered with \<^verbatim>\<open>fallback\<close>) is
  displayed as its literal text, and a token from explicit delimiters (rendered without
  \<^verbatim>\<open>fallback\<close>) as an error-styled code element showing the offending source only. In the
  document preview, \<^verbatim>\<open>MathBlock\<close> displays an error box with the offending source and
  the failure reason, except that a failure whose message mentions quirks mode gets the
  title and note about the missing DOCTYPE in place of the reason.
\<close>

theorem render_failure_display:
  "(MathRendererEl content displayMode fallback \<in> set (implicitPart p) \<longrightarrow> fallback)
   \<and> (startsWith p ''$'' \<or> startsWith p (backslash # ''('') \<or> startsWith p (backslash # ''['')
        \<longrightarrow> (\<exists>c d. explicitPart p = Some [MathRendererEl c d False]))
   \<and> (renderToString content displayMode = Inl err
        \<longrightarrow> MathRenderer (Some renderToString) content displayMode True
              = (Span content, [(content, displayMode)])
          \<and> MathRenderer (Some renderToString) content displayMode False
              = (ErrorCode content, [(content, displayMode)]))
   \<and> (render (stripDelimiters source) displayMode = Inl err \<and> err \<noteq> [] \<and> includesStr err ''quirks mode''
        \<longrightarrow> MathBlock (Some render) source displayMode
              = ErrorBox ''Browser Compatibility Error'' True source None)
   \<and> (render (stripDelimiters source) displayMode = Inl err \<and> err \<noteq> [] \<and> \<not> includesStr err ''quirks mode''
        \<longrightarrow> MathBlock (Some render) source displayMode
              = ErrorBox ''Rendering Error'' False source (Some err))"
proof (intro conjI impI)
  assume "MathRendererEl content displayMode fallback \<in> set (implicitPart p)"
  then show fallback by (rule implicitPart_fallback [THEN conjunct1])
next
  assume "startsWith p ''$'' \<or> startsWith p (backslash # ''('') \<or> startsWith p (backslash # ''['')"
  then show "\<exists>c d. explicitPart p = Some [MathRendererEl c d False]"
    by (rule explicitPart_no_fallback)
next
  assume "renderToString content displayMode = Inl err"
  then show "MathRenderer (Some renderToString) content displayMode True
              = (Span content, [(content, displayMode)])"
    and "MathRenderer (Some renderToString) content displayMode False
              = (ErrorCode content, [(content, displayMode)])"
    by (simp_all add: MathRenderer_def)
next
  assume "render (stripDelimiters source) displayMode = Inl err \<and> err \<noteq> [] \<and> includesStr err ''quirks mode''"
  then show "MathBlock (Some render) source displayMode
              = ErrorBox ''Browser Compatibility Error'' True source None"
    by (simp add: MathBlock_def)
next
  assume "render (stripDelimiters source) displayMode = Inl err \<and> err \<noteq> [] \<and> \<not> includesStr err ''quirks mode''"
  then show "MathBlock (Some render) source displayMode
              = ErrorBox ''Rendering Error'' False source (Some err)"
    by (simp add: MathBlock_def)
qed

lemma implicitPart_a_eq_2: "implicitPart ''a=2'' = [MathRendererEl ''a=2'' False True, TextEl []]"
  by code_simp

lemma stripDelimiters_sample: "stripDelimiters ''$x^$'' = ''x^''"
  by code_simp

lemma quirks_message: "includesStr ''KaTeX does not work in quirks mode.'' ''quirks mode''"
  by code_simp

lemma parse_message: "\<not> includesStr ''KaTeX parse error: Expected group after ^'' ''quirks mode''"
  by code_simp

theorem render_failure_display_witness:
  "MathRenderer (Some (\<lambda>c d. Inl ''KaTeX parse error: Expected group after ^'')) ''a=2'' False True
      = (Span ''a=2'', [(''a=2'', False)])
   \<and> MathRenderer (Some (\<lambda>c d. Inl ''KaTeX parse error: Expected group after ^'')) ''a=2'' False False
      = (ErrorCode ''a=2'', [(''a=2'', False)])
   \<and> (\<exists>c d. explicitPart ''$x^$'' = Some [MathRendererEl c d False])
   \<and> MathBlock (Some (\<lambda>c d. Inl ''KaTeX does not work in quirks mode.'')) ''$x^$'' False
      = ErrorBox ''Browser Compatibility Error'' True ''$x^$'' None
   \<and> MathBlock (Some (\<lambda>c d. Inl ''KaTeX parse error: Expected group after ^'')) ''$x^$'' False
      = ErrorBox ''Rendering Error'' False ''$x^$'' (Some ''KaTeX parse error: Expected group after ^'')"
proof -
  have a: "MathRendererEl ''a=2'' False True \<in> set (implicitPart ''a=2'')"
    by (simp add: implicitPart_a_eq_2)
  have b: "startsWith ''$x^$'' ''$''" by simp
  note t1 = render_failure_display [where content = "''a=2''" and displayMode = False and fallback = True
      and p = "''a=2''" and renderToString = "\<lambda>c d. Inl ''KaTeX parse error: Expected group after ^''"
      and err = "''KaTeX parse error: Expected group after ^''"
      and render = "\<lambda>c d. Inl ''KaTeX parse error: Expected group after ^''" and source = "''$x^$''"]
  note t2 = render_failure_display [where p = "''$x^$''"
      and render = "\<lambda>c d. Inl ''KaTeX does not work in quirks mode.''" and source = "''$x^$''"
      and err = "''KaTeX does not work in quirks mode.''" and displayMode = False]
  show ?thesis
    using t1 t2 a b quirks_message parse_message by simp
qed

text \<open>
  The claim C7 as stated fails for the explicit tokens of \<^verbatim>\<open>FormattedText\<close>: the element
  displayed is the same whatever the failure reason, a quirks-mode failure included, so
  it shows neither the reason nor a distinguished message.
\<close>

theorem render_failure_reason_counterexample:
  "fst (MathRenderer (Some (\<lambda>c d. Inl ''KaTeX parse error: Expected group after ^'')) ''x^'' False False)
      = ErrorCode ''x^''
   \<and> fst (MathRenderer (Some (\<lambda>c d. Inl ''KaTeX does not work in quirks mode.'')) ''x^'' False False)
      = ErrorCode ''x^''"
  by (simp add: MathRenderer_def)


section \<open>Properties of the document preview\<close>

lemma isWhiteSpace_code:
  "isWhiteSpace c \<longleftrightarrow> (of_char c :: nat) \<in> {9, 10, 11, 12, 13, 32, 160}"
proof -
  have eq: "(c = d) = ((of_char c :: nat) = of_char d)" for d :: char
    by (simp add: of_char_eq_iff)
  show ?thesis
    by (simp add: isWhiteSpace_def eq)
qed

lemma isWhiteSpace_upperChar: "isWhiteSpace (upperChar c) \<longleftrightarrow> isWhiteSpace c"
  by (auto simp: isWhiteSpace_code upperChar_def Let_def)

lemma isWhiteSpace_lowerChar: "isWhiteSpace (lowerChar c) \<longleftrightarrow> isWhiteSpace c"
  by (auto simp: isWhiteSpace_code lowerChar_def Let_def)

lemma classHas_space: "classHas ic [CSpace] x = isWhiteSpace x"
  by (auto simp: classHas_def isWhiteSpace_upperChar isWhiteSpace_lowerChar)

lemma classHas_any: "classHas ic [CSpace, CNonSpace] x"
  by (simp add: classHas_def)

lemma rmatch_Lit:
  "rmatch True (Lit w) (pre, rest, c)
     = (if map upperChar (take (length w) rest) = map upperChar w
        then [(rev (take (length w) rest) @ pre, drop (length w) rest, c)] else [])"
proof (induction w arbitrary: pre rest rule: Lit.induct)
  case 1
  then show ?case by simp
next
  case (2 a)
  then show ?case by (cases rest) (auto simp: charEq_def)
next
  case (3 a b bs)
  show ?case
  proof (cases rest)
    case Nil
    then show ?thesis by simp
  next
    case (Cons x xs)
    then show ?thesis
      using "3.IH" [of "x # pre" xs] by (auto simp: charEq_def)
  qed
qed


lemma space_not_brace: "isWhiteSpace x \<Longrightarrow> upperChar x \<noteq> upperChar CHR ''{''"
  by (auto simp: isWhiteSpace_code upperChar_def Let_def)

lemma brace_after_space:
  assumes "isWhiteSpace x"
  shows "rmatch True (Lit braceDocument) (pre, x # xs, c) = []"
proof -
  obtain ks where bd: "braceDocument = CHR ''{'' # ks" by (simp add: braceDocument_def)
  have "length braceDocument = Suc (length ks)" by (simp add: bd)
  then show ?thesis
    using space_not_brace [OF assms] by (simp add: rmatch_Lit bd del: Lit.simps)
qed

lemma spaces_empty:
  "rest = [] \<or> \<not> isWhiteSpace (hd rest) \<Longrightarrow> rmatch True spaces (pre, rest, c) = [(pre, rest, c)]"
  unfolding spaces_def
  by (subst rmatch.simps(8)) (auto simp: classHas_space resetCaps_def split: list.splits)

lemma spaces_step:
  "isWhiteSpace w \<Longrightarrow> rmatch True spaces (pre, w # rest, c)
      = rmatch True spaces (w # pre, rest, c) @ [(pre, w # rest, c)]"
  unfolding spaces_def
  by (subst rmatch.simps(8)) (simp add: classHas_space resetCaps_def)

lemma spaces_then_brace:
  assumes "\<forall>w \<in> set ws. isWhiteSpace w" and "rest = [] \<or> \<not> isWhiteSpace (hd rest)"
  shows "rmatch True (Seq spaces (Lit braceDocument)) (pre, ws @ rest, c)
       = rmatch True (Lit braceDocument) (rev ws @ pre, rest, c)"
  using assms
proof (induction ws arbitrary: pre)
  case Nil
  then show ?case by (simp add: spaces_empty)
next
  case (Cons w ws)
  then have w: "isWhiteSpace w" by simp
  have ih: "concat (map (rmatch True (Lit braceDocument)) (rmatch True spaces (w # pre, ws @ rest, c)))
      = rmatch True (Lit braceDocument) (rev ws @ w # pre, rest, c)"
    using Cons.IH [of "w # pre"] Cons.prems by simp
  show ?case
    using w by (simp add: spaces_step ih brace_after_space)
qed

lemma rmatch_marker:
  "rmatch True (Seqs [Lit keyword, spaces, Lit braceDocument]) (pre, text, c)
     = (case markerLen keyword text of
          None \<Rightarrow> []
        | Some n \<Rightarrow> [(rev (take n text) @ pre, drop n text, c)])"
proof (cases "map upperChar (take (length keyword) text) = map upperChar keyword")
  case False
  then show ?thesis by (simp add: rmatch_Lit markerLen_def Let_def)
next
  case True
  define n where "n = length keyword"
  define m where "m = length braceDocument"
  define rest1 where "rest1 = drop n text"
  define ws where "ws = takeWhile isWhiteSpace rest1"
  define tail where "tail = dropWhile isWhiteSpace rest1"
  have split: "rest1 = ws @ tail" by (simp add: ws_def tail_def)
  have ws: "\<forall>w \<in> set ws. isWhiteSpace w" by (auto simp: ws_def dest: set_takeWhileD)
  have tl: "tail = [] \<or> \<not> isWhiteSpace (hd tail)"
    unfolding tail_def by (metis hd_dropWhile)
  have tail_eq: "tail = drop (n + length ws) text"
    by (metis add.commute drop_drop append_eq_conv_conj rest1_def split)
  have k: "rmatch True (Lit keyword) (pre, text, c) = [(rev (take n text) @ pre, rest1, c)]"
    using True by (simp add: rmatch_Lit n_def rest1_def)
  have sp: "rmatch True (Seq spaces (Lit braceDocument)) (rev (take n text) @ pre, rest1, c)
      = rmatch True (Lit braceDocument) (rev ws @ rev (take n text) @ pre, tail, c)"
    unfolding split using ws tl by (rule spaces_then_brace)
  have tk: "take (n + length ws) text = take n text @ ws"
    by (metis append_eq_conv_conj rest1_def split take_add)
  have whole: "rmatch True (Seqs [Lit keyword, spaces, Lit braceDocument]) (pre, text, c)
      = rmatch True (Lit braceDocument) (rev ws @ rev (take n text) @ pre, tail, c)"
    using k sp by simp
  show ?thesis
  proof (cases "map upperChar (take m tail) = map upperChar braceDocument")
    case False
    have "markerLen keyword text = None"
      using False True tail_eq by (simp add: markerLen_def Let_def n_def m_def ws_def rest1_def)
    moreover have "rmatch True (Lit braceDocument) (rev ws @ rev (take n text) @ pre, tail, c) = []"
      using False by (simp add: rmatch_Lit m_def)
    ultimately show ?thesis
      unfolding whole by simp
  next
    case t: True
    have ml: "markerLen keyword text = Some (n + length ws + m)"
      using t True tail_eq by (simp add: markerLen_def Let_def n_def m_def ws_def rest1_def)
    have "rmatch True (Lit braceDocument) (rev ws @ rev (take n text) @ pre, tail, c)
        = [(rev (take m tail) @ rev ws @ rev (take n text) @ pre, drop m tail, c)]"
      using t by (simp add: rmatch_Lit m_def)
    moreover have "rev (take m tail) @ rev ws @ rev (take n text) = rev (take (n + length ws + m) text)"
    proof -
      have "take (n + length ws + m) text = take (n + length ws) text @ take m (drop (n + length ws) text)"
        by (rule take_add)
      also have "\<dots> = (take n text @ ws) @ take m tail"
        by (simp only: tk tail_eq)
      finally show ?thesis by simp
    qed
    moreover have "drop m tail = drop (n + length ws + m) text"
      by (simp add: tail_eq add.commute)
    ultimately show ?thesis
      unfolding whole ml by simp
  qed
qed


lemma beginDocument_marker: "beginDocument = Seqs [Lit (backslash # ''begin''), spaces, Lit braceDocument]"
  unfolding beginDocument_def braceDocument_def ..

lemma endDocument_marker: "endDocument = Seqs [Lit (backslash # ''end''), spaces, Lit braceDocument]"
  unfolding endDocument_def braceDocument_def ..

lemma rmatch_beginDocument:
  "rmatch True beginDocument (pre, text, c)
     = (case markerLen (backslash # ''begin'') text of
          None \<Rightarrow> []
        | Some n \<Rightarrow> [(rev (take n text) @ pre, drop n text, c)])"
  unfolding beginDocument_marker by (rule rmatch_marker)

lemma rmatch_endDocument:
  "rmatch True endDocument (pre, text, c)
     = (case markerLen (backslash # ''end'') text of
          None \<Rightarrow> []
        | Some n \<Rightarrow> [(rev (take n text) @ pre, drop n text, c)])"
  unfolding endDocument_marker by (rule rmatch_marker)

lemma lazy_any_Nil: "rmatch ic (Star False anyChar) (pre, [], c) = [(pre, [], c)]"
  unfolding anyChar_def by (subst rmatch.simps(8)) simp

lemma lazy_any_Cons:
  "rmatch ic (Star False anyChar) (pre, x # xs, c)
     = (pre, x # xs, c) # rmatch ic (Star False anyChar) (x # pre, xs, c)"
  unfolding anyChar_def by (subst rmatch.simps(8)) (simp add: classHas_any resetCaps_def)

lemma lazy_any_hd: "\<exists>more. rmatch ic (Star False anyChar) (pre, rest, c) = (pre, rest, c) # more"
  by (cases rest) (simp_all add: lazy_any_Nil lazy_any_Cons)

lemma rmatch_Group:
  "rmatch ic (Group n r) (pre, rest, c) = map (capture n (length pre)) (rmatch ic r (pre, rest, c))"
  by (simp add: capture_def)

lemma body_then_end:
  assumes "markerLen (backslash # ''end'') (E @ post) = Some (length E)"
    and "\<forall>j<length inner. markerLen (backslash # ''end'') (drop j (inner @ E @ post)) = None"
  shows "\<exists>more. concat (map (rmatch True endDocument)
            (map (capture 1 n0) (rmatch True (Star False anyChar) (pre, inner @ E @ post, c))))
        = (rev E @ rev inner @ pre, post, c(1 \<mapsto> (n0, length pre + length inner))) # more"
  using assms(2)
proof (induction inner arbitrary: pre)
  case Nil
  obtain more where m: "rmatch True (Star False anyChar) (pre, E @ post, c) = (pre, E @ post, c) # more"
    using lazy_any_hd by blast
  have first: "rmatch True endDocument (capture 1 n0 (pre, E @ post, c))
      = [(rev E @ pre, post, c(1 \<mapsto> (n0, length pre)))]"
    using assms(1) by (simp add: capture_def rmatch_endDocument)
  show ?case
    unfolding append_Nil m by (simp only: list.map concat.simps first) (auto simp: fun_upd_def)
next
  case (Cons x xs)
  have none: "markerLen (backslash # ''end'') (x # xs @ E @ post) = None"
    using Cons.prems by (auto dest: spec [of _ 0])
  have rest: "\<forall>j<length xs. markerLen (backslash # ''end'') (drop j (xs @ E @ post)) = None"
  proof (intro allI impI)
    fix j assume "j < length xs"
    then have "Suc j < length (x # xs)" by simp
    with Cons.prems have "markerLen (backslash # ''end'') (drop (Suc j) ((x # xs) @ E @ post)) = None"
      by blast
    then show "markerLen (backslash # ''end'') (drop j (xs @ E @ post)) = None" by simp
  qed
  from Cons.IH [OF rest, of "x # pre"] obtain more where
    ih: "concat (map (rmatch True endDocument)
            (map (capture 1 n0) (rmatch True (Star False anyChar) (x # pre, xs @ E @ post, c))))
        = (rev E @ rev xs @ x # pre, post, c(1 \<mapsto> (n0, length (x # pre) + length xs))) # more"
    by blast
  have first: "rmatch True endDocument (capture 1 n0 (pre, x # xs @ E @ post, c)) = []"
    using none by (simp add: capture_def rmatch_endDocument)
  show ?case
    unfolding append_Cons lazy_any_Cons
    by (simp only: list.map concat.simps first ih append_Nil) (auto simp: fun_upd_def)
qed

lemma documentBody_unfold:
  "rmatch True documentBody st
     = concat (map (\<lambda>st1. concat (map (rmatch True endDocument)
                  (rmatch True (Group 1 (Star False anyChar)) st1)))
          (rmatch True beginDocument st))"
proof -
  have "rmatch True (Seq (Group 1 (Star False anyChar)) endDocument)
      = (\<lambda>st1. concat (map (rmatch True endDocument) (rmatch True (Group 1 (Star False anyChar)) st1)))"
    by (rule ext) simp
  then show ?thesis
    by (simp add: documentBody_def)
qed

lemma documentBody_no_begin:
  "markerLen (backslash # ''begin'') text = None \<Longrightarrow> rmatch True documentBody (pre, text, c) = []"
  by (simp add: documentBody_unfold rmatch_beginDocument)

lemma documentBody_at_begin:
  assumes "markerLen (backslash # ''begin'') (B @ inner @ E @ post) = Some (length B)"
    and "markerLen (backslash # ''end'') (E @ post) = Some (length E)"
    and "\<forall>j<length inner. markerLen (backslash # ''end'') (drop j (inner @ E @ post)) = None"
  shows "\<exists>more. rmatch True documentBody (pre, B @ inner @ E @ post, Map.empty)
        = (rev E @ rev inner @ rev B @ pre, post,
           [1 \<mapsto> (length pre + length B, length pre + length B + length inner)]) # more"
proof -
  have b: "rmatch True beginDocument (pre, B @ inner @ E @ post, Map.empty)
      = [(rev B @ pre, inner @ E @ post, Map.empty)]"
    using assms(1) by (simp add: rmatch_beginDocument)
  from body_then_end [OF assms(2,3), of "length (rev B @ pre)" "rev B @ pre" Map.empty]
  obtain more where m:
    "concat (map (rmatch True endDocument)
            (map (capture 1 (length (rev B @ pre)))
               (rmatch True (Star False anyChar) (rev B @ pre, inner @ E @ post, Map.empty))))
        = (rev E @ rev inner @ rev B @ pre, post,
           [1 \<mapsto> (length (rev B @ pre), length (rev B @ pre) + length inner)]) # more"
    by blast
  have "rmatch True documentBody (pre, B @ inner @ E @ post, Map.empty)
      = concat (map (rmatch True endDocument)
            (map (capture 1 (length (rev B @ pre)))
               (rmatch True (Star False anyChar) (rev B @ pre, inner @ E @ post, Map.empty))))"
    unfolding documentBody_unfold b by (simp only: list.map concat.simps append_Nil2 rmatch_Group)
  with m show ?thesis by (auto simp: add.commute fun_upd_def)
qed

lemma execFrom_first:
  assumes "n \<le> length s" and "matchAt ic r s n = Some m" and "\<forall>i<n. matchAt ic r s i = None"
  shows "i \<le> n \<Longrightarrow> execFrom ic r s i = Some m"
proof (induction "n - i" arbitrary: i)
  case 0
  then have "i = n" by simp
  with assms(1,2) show ?case by (subst execFrom.simps) simp
next
  case (Suc d)
  then have lt: "i < n" by simp
  with assms(3) have none: "matchAt ic r s i = None" by blast
  from Suc have "execFrom ic r s (Suc i) = Some m" by simp
  with none lt assms(1) show ?case by (subst execFrom.simps) simp
qed


text \<open>
  The extractor on a document with a body. When the text is \<open>pre @ B @ inner @ E @ post\<close>
  with \<open>B\<close> the first begin marker of the text, \<open>E\<close> the first end marker after it
  and \<open>inner\<close> not empty, the result is \<open>inner\<close>, trimmed.
\<close>

theorem getRenderableContent_body:
  assumes "fullLatex = pre @ B @ inner @ E @ post"
    and "markerLen (backslash # ''begin'') (B @ inner @ E @ post) = Some (length B)"
    and "\<forall>i<length pre. markerLen (backslash # ''begin'') (drop i fullLatex) = None"
    and "markerLen (backslash # ''end'') (E @ post) = Some (length E)"
    and "\<forall>j<length inner. markerLen (backslash # ''end'') (drop j (inner @ E @ post)) = None"
    and "inner \<noteq> []"
  shows "getRenderableContent fullLatex = Some (trim inner)"
proof -
  from documentBody_at_begin [OF assms(2,4,5), of "rev pre"] obtain more where
    r: "rmatch True documentBody (rev pre, B @ inner @ E @ post, Map.empty)
        = (rev E @ rev inner @ rev B @ rev pre, post,
           [1 \<mapsto> (length (rev pre) + length B, length (rev pre) + length B + length inner)]) # more"
    by blast
  define m where "m = \<lparr>mIndex = length pre, mEnd = length (rev E @ rev inner @ rev B @ rev pre),
     mCaps = [1 \<mapsto> (length pre + length B, length pre + length B + length inner)]\<rparr>"
  have at: "matchAt True documentBody fullLatex (length pre) = Some m"
    using r by (simp add: matchAt_def mstart_def assms(1) m_def)
  have before: "\<forall>i<length pre. matchAt True documentBody fullLatex i = None"
  proof (intro allI impI)
    fix i assume "i < length pre"
    with assms(3) have "markerLen (backslash # ''begin'') (drop i fullLatex) = None" by blast
    then show "matchAt True documentBody fullLatex i = None"
      by (simp add: matchAt_def mstart_def documentBody_no_begin)
  qed
  have len: "length pre \<le> length fullLatex" by (simp add: assms(1))
  have ex: "reMatchStr True documentBody fullLatex = Some m"
    unfolding reMatchStr_def using len at before by (rule execFrom_first) simp
  from assms(6) obtain b bs where inner: "inner = b # bs" by (cases inner) auto
  have cap: "captureText fullLatex m (Suc 0) = Some (b # bs)"
    by (simp add: captureText_def m_def substring_def assms(1) inner [symmetric])
  have ne: "fullLatex \<noteq> []" using assms(1,6) by simp
  show ?thesis
    using ne by (simp add: getRenderableContent_def ex cap Let_def inner)
qed

text \<open>An instance: upper-case end marker, white space before the brace.\<close>

lemma getRenderableContent_body_example:
  "getRenderableContent (''% '' @ backslash # ''begin {document}'' @ '' Hi '' @ backslash # ''END{document}'' @ ''!'')
     = Some ''Hi''"
proof -
  have t: "trim '' Hi '' = ''Hi''" by code_simp
  have b: "markerLen (backslash # ''begin'') ((backslash # ''begin {document}'') @ '' Hi '' @ (backslash # ''END{document}'') @ ''!'')
      = Some (length (backslash # ''begin {document}''))"
    by code_simp
  have e: "markerLen (backslash # ''end'') ((backslash # ''END{document}'') @ ''!'')
      = Some (length (backslash # ''END{document}''))"
    by code_simp
  have nb: "\<forall>i<length ''% ''. markerLen (backslash # ''begin'')
      (drop i (''% '' @ (backslash # ''begin {document}'') @ '' Hi '' @ (backslash # ''END{document}'') @ ''!'')) = None"
  proof -
    have "list_all (\<lambda>i. markerLen (backslash # ''begin'')
      (drop i (''% '' @ (backslash # ''begin {document}'') @ '' Hi '' @ (backslash # ''END{document}'') @ ''!'')) = None)
      [0..<length ''% '']"
      by code_simp
    then show ?thesis unfolding list_all_iff by (metis atLeast0LessThan lessThan_iff set_upt)
  qed
  have ne: "\<forall>j<length '' Hi ''. markerLen (backslash # ''end'')
      (drop j ('' Hi '' @ (backslash # ''END{document}'') @ ''!'')) = None"
  proof -
    have "list_all (\<lambda>j. markerLen (backslash # ''end'')
      (drop j ('' Hi '' @ (backslash # ''END{document}'') @ ''!'')) = None)
      [0..<length '' Hi '']"
      by code_simp
    then show ?thesis unfolding list_all_iff by (metis atLeast0LessThan lessThan_iff set_upt)
  qed
  show ?thesis
    using getRenderableContent_body [OF refl b nb e ne] t by simp
qed

text \<open>
  Claim C5 at the input \<^verbatim>\<open>\begin{document}\end{document}\<close>: the text between the pair
  is empty, yet \<^verbatim>\<open>getRenderableContent\<close> returns the whole input, markers included.
  The same empty body after a \<^verbatim>\<open>\documentclass\<close> line gives the empty string.
\<close>

theorem getRenderableContent_empty_body:
  "getRenderableContent (backslash # ''begin{document}'' @ backslash # ''end{document}'')
     = Some (backslash # ''begin{document}'' @ backslash # ''end{document}'')
   \<and> getRenderableContent (backslash # ''documentclass{article}'' @ backslash # ''begin{document}''
          @ backslash # ''end{document}'')
     = Some []"
proof
  show "getRenderableContent (backslash # ''begin{document}'' @ backslash # ''end{document}'')
     = Some (backslash # ''begin{document}'' @ backslash # ''end{document}'')"
    by code_simp
  show "getRenderableContent (backslash # ''documentclass{article}'' @ backslash # ''begin{document}''
          @ backslash # ''end{document}'')
     = Some []"
    by code_simp
qed


section \<open>Properties of the editor\<close>

lemma slice_0: "slice s 0 (int n) = take n s"
  by (simp add: slice_def sliceIndex_def Let_def min_def)

lemma sliceFrom_nat: "sliceFrom s (int n) = drop n s"
  by (simp add: sliceFrom_def sliceIndex_def min_def)

lemma lastIndexOf_None_iff: "lastIndexOf s c = None \<longleftrightarrow> c \<notin> set s"
  by (induction s) (auto split: option.splits)

lemma lastIndexOf_SomeD:
  "lastIndexOf s c = Some k \<Longrightarrow> k < length s \<and> s ! k = c \<and> (\<forall>j. k < j \<and> j < length s \<longrightarrow> s ! j \<noteq> c)"
proof (induction s arbitrary: k)
  case Nil
  then show ?case by simp
next
  case (Cons x xs)
  show ?case
  proof (cases "lastIndexOf xs c")
    case None
    then have none: "c \<notin> set xs" by (simp add: lastIndexOf_None_iff)
    from None Cons.prems have xk: "x = c" "k = 0" by (auto split: if_splits)
    have "(x # xs) ! j \<noteq> c" if "0 < j" "j < length (x # xs)" for j
    proof -
      from that have "(x # xs) ! j = xs ! (j - 1)" "j - 1 < length xs" by (auto simp: nth_Cons')
      with none show ?thesis by (metis nth_mem)
    qed
    with xk show ?thesis by simp
  next
    case (Some i)
    with Cons.prems have k: "k = Suc i" by simp
    from Cons.IH [OF Some]
    have ih: "i < length xs" "xs ! i = c" "\<forall>j. i < j \<and> j < length xs \<longrightarrow> xs ! j \<noteq> c"
      by auto
    have "(x # xs) ! j \<noteq> c" if "Suc i < j" "j < length (x # xs)" for j
    proof -
      from that have "(x # xs) ! j = xs ! (j - 1)" "i < j - 1" "j - 1 < length xs"
        by (auto simp: nth_Cons')
      with ih(3) show ?thesis by simp
    qed
    with k ih(1,2) show ?thesis by simp
  qed
qed

lemma lastIndexOf_SomeI:
  assumes "k < length s" and "s ! k = c" and "\<forall>j. k < j \<and> j < length s \<longrightarrow> s ! j \<noteq> c"
  shows "lastIndexOf s c = Some k"
proof (cases "lastIndexOf s c")
  case None
  then have "c \<notin> set s" by (simp add: lastIndexOf_None_iff)
  with assms(1,2) show ?thesis by (metis nth_mem)
next
  case (Some i)
  from lastIndexOf_SomeD [OF Some]
  have i: "i < length s" "s ! i = c" "\<forall>j. i < j \<and> j < length s \<longrightarrow> s ! j \<noteq> c" by auto
  have "i = k"
  proof (rule ccontr)
    assume "i \<noteq> k"
    then consider "i < k" | "k < i" by linarith
    then show False
    proof cases
      case 1
      with i(3) assms(1,2) show False by blast
    next
      case 2
      with assms(3) i(1,2) show False by blast
    qed
  qed
  with Some show ?thesis by simp
qed

text \<open>
  Claim C9, as amended. When a suggestion is accepted and \<open>k\<close> is the index of the last
  backslash before the caret, escaped or not, the editor replaces exactly the span from
  \<open>k\<close> to the caret with the accepted command, puts the caret right after the inserted
  command and closes the popup.
\<close>

theorem applySuggestion_replaces_from_last_backslash:
  assumes "k < selectionStart st" and "k < length (editorValue st)"
    and "editorValue st ! k = backslash"
    and "\<forall>j. k < j \<and> j < selectionStart st \<and> j < length (editorValue st) \<longrightarrow> editorValue st ! j \<noteq> backslash"
  shows "applySuggestion True cmd st
       = st\<lparr>editorValue := take k (editorValue st) @ cmd @ drop (selectionStart st) (editorValue st),
            showSuggestions := False,
            selectionStart := k + length cmd, selectionEnd := k + length cmd\<rparr>"
proof -
  have "lastIndexOf (take (selectionStart st) (editorValue st)) backslash = Some k"
    using assms by (intro lastIndexOf_SomeI) auto
  then show ?thesis
    by (simp add: applySuggestion_def slice_0 sliceFrom_nat Let_def)
qed

theorem applySuggestion_replaces_from_last_backslash_witness:
  "applySuggestion True (backslash # ''alpha'')
      \<lparr>editorValue = ''x '' @ backslash # ''al y'', selectionStart = 5, selectionEnd = 5,
       suggestions = [backslash # ''alpha''], showSuggestions = True\<rparr>
   = \<lparr>editorValue = ''x '' @ backslash # ''alpha y'', selectionStart = 8, selectionEnd = 8,
       suggestions = [backslash # ''alpha''], showSuggestions = False\<rparr>"
  using applySuggestion_replaces_from_last_backslash [where k = 2 and cmd = "backslash # ''alpha''"
      and st = "\<lparr>editorValue = ''x '' @ backslash # ''al y'', selectionStart = 5, selectionEnd = 5,
       suggestions = [backslash # ''alpha''], showSuggestions = True\<rparr>"]
  by (simp add: backslash_def nth_Cons' less_Suc_eq)

text \<open>
  The claim C9 as stated fails: in \<^verbatim>\<open>\\al\<close> with the caret at the end, the
  replacement starts at index 1, the second character of the backslash pair, and the
  result is \<^verbatim>\<open>\\alpha\<close>.
\<close>

theorem applySuggestion_escaped_backslash_counterexample:
  "applySuggestion True (backslash # ''alpha'')
      \<lparr>editorValue = [backslash, backslash] @ ''al'', selectionStart = 4, selectionEnd = 4,
       suggestions = [backslash # ''alpha''], showSuggestions = True\<rparr>
   = \<lparr>editorValue = [backslash, backslash] @ ''alpha'', selectionStart = 7, selectionEnd = 7,
       suggestions = [backslash # ''alpha''], showSuggestions = False\<rparr>
   \<and> lastIndexOf (take 4 ([backslash, backslash] @ ''al'')) backslash = Some 1"
  by (simp add: applySuggestion_def slice_def sliceFrom_def sliceIndex_def Let_def backslash_def)

end
